theory Spec2Isabelle
  imports Complex_Main
begin

section \<open>Strings as the source uses them\<close>

text \<open>
  The tokens and key codes handled by \<^verbatim>\<open>lib/utils/keyboard.ts\<close> are ASCII identifiers.
  A JavaScript string is modelled as a \<^typ>\<open>string\<close>; case conversion acts on the ASCII
  letters and leaves every other character alone. A string is truthy when it is not empty.
\<close>

definition upper_letters :: string where
  "upper_letters = ''ABCDEFGHIJKLMNOPQRSTUVWXYZ''"

definition lower_letters :: string where
  "lower_letters = ''abcdefghijklmnopqrstuvwxyz''"

definition is_upper :: "char \<Rightarrow> bool" where
  "is_upper c = (c \<in> set upper_letters)"

definition is_lower :: "char \<Rightarrow> bool" where
  "is_lower c = (c \<in> set lower_letters)"

definition is_digit :: "char \<Rightarrow> bool" where
  "is_digit c = (c \<in> set ''0123456789'')"

definition lower_char :: "char \<Rightarrow> char" where
  "lower_char c = (case map_of (zip upper_letters lower_letters) c of Some l \<Rightarrow> l | None \<Rightarrow> c)"

definition upper_char :: "char \<Rightarrow> char" where
  "upper_char c = (case map_of (zip lower_letters upper_letters) c of Some u \<Rightarrow> u | None \<Rightarrow> c)"

definition toLowerCase :: "string \<Rightarrow> string" where
  "toLowerCase s = map lower_char s"

definition toUpperCase :: "string \<Rightarrow> string" where
  "toUpperCase s = map upper_char s"

definition truthy :: "string \<Rightarrow> bool" where
  "truthy s = (s \<noteq> [])"

definition startsWith :: "string \<Rightarrow> string \<Rightarrow> bool" where
  "startsWith s p = (take (length p) s = p)"

text \<open>\<^verbatim>\<open>s.replace(pat, rep)\<close> with a string pattern: the first occurrence only.\<close>

fun replace_first :: "string \<Rightarrow> string \<Rightarrow> string \<Rightarrow> string" where
  "replace_first pat rep [] = (if pat = [] then rep else [])"
| "replace_first pat rep (c # cs) =
     (if startsWith (c # cs) pat then rep @ drop (length pat) (c # cs)
      else c # replace_first pat rep cs)"

text \<open>\<^verbatim>\<open>s.replace(/([a-z])([A-Z])/g, "$1 $2")\<close>: every lower-case letter directly followed by
  an upper-case one gets a space between the two; the scan resumes after the pair.\<close>

fun camel_space :: "string \<Rightarrow> string" where
  "camel_space (a # b # cs) =
     (if is_lower a \<and> is_upper b then a # CHR '' '' # b # camel_space cs
      else a # camel_space (b # cs))"
| "camel_space cs = cs"

text \<open>\<^verbatim>\<open>s.split(c)\<close> for a one-character separator: never the empty list.\<close>

fun split_on :: "char \<Rightarrow> string \<Rightarrow> string list" where
  "split_on c [] = [[]]"
| "split_on c (x # xs) =
     (if x = c then [] # split_on c xs
      else (case split_on c xs of [] \<Rightarrow> [[x]] | p # ps \<Rightarrow> (x # p) # ps))"

fun join :: "string \<Rightarrow> string list \<Rightarrow> string" where
  "join sep [] = []"
| "join sep [p] = p"
| "join sep (p # q # ps) = p @ sep @ join sep (q # ps)"

text \<open>Decimal rendering of a number inside a template string.\<close>

definition digit_char :: "nat \<Rightarrow> char" where
  "digit_char d = ''0123456789'' ! (d mod 10)"

fun string_of_nat :: "nat \<Rightarrow> string" where
  "string_of_nat n =
     (if n < 10 then [digit_char n] else string_of_nat (n div 10) @ [digit_char (n mod 10)])"

definition string_of_int :: "int \<Rightarrow> string" where
  "string_of_int i = (if i < 0 then CHR ''-'' # string_of_nat (nat (- i)) else string_of_nat (nat i))"

section \<open>Key and button names (\<^verbatim>\<open>lib/utils/keyboard.ts\<close>)\<close>

text \<open>The recorder imports these functions from \<^verbatim>\<open>lib/utils/keyboard\<close>; their text stands
  behind the overlay component in \<^verbatim>\<open>src/overlay/RecordingOverlay.tsx\<close>.\<close>

datatype OSType = Macos | Windows | Linux | Unknown

text \<open>The fields of a \<^verbatim>\<open>KeyboardEvent\<close> that the code reads. An absent \<^verbatim>\<open>code\<close> or
  \<^verbatim>\<open>key\<close> is the empty string.\<close>

record KeyboardEvent =
  code :: string
  key :: string
  keyCode :: nat
  which :: nat
  repeat :: bool

definition match_F_digits :: "string \<Rightarrow> bool" where
  "match_F_digits s = (case s of [] \<Rightarrow> False | c # ds \<Rightarrow> c = CHR ''F'' \<and> ds \<noteq> [] \<and> list_all is_digit ds)"

definition match_Key_letter :: "string \<Rightarrow> bool" where
  "match_Key_letter s = (length s = 4 \<and> take 3 s = ''Key'' \<and> is_upper (s ! 3))"

definition match_Digit :: "string \<Rightarrow> bool" where
  "match_Digit s = (length s = 6 \<and> take 5 s = ''Digit'' \<and> is_digit (s ! 5))"

definition match_Numpad_digit :: "string \<Rightarrow> bool" where
  "match_Numpad_digit s = (length s = 7 \<and> take 6 s = ''Numpad'' \<and> is_digit (s ! 6))"

fun getModifierName :: "OSType \<Rightarrow> string \<Rightarrow> string" where
  "getModifierName os baseModifier =
     (if baseModifier = ''shift'' then ''shift''
      else if baseModifier = ''ctrl'' then (if os = Macos then ''ctrl'' else ''ctrl'')
      else if baseModifier = ''alt'' then (if os = Macos then ''option'' else ''alt'')
      else if baseModifier = ''meta'' then (if os = Macos then ''command'' else ''super'')
      else baseModifier)"

definition modifierMap :: "OSType \<Rightarrow> (string \<times> string) list" where
  "modifierMap os =
    [(''ShiftLeft'', getModifierName os ''shift''),
     (''ShiftRight'', getModifierName os ''shift''),
     (''ControlLeft'', getModifierName os ''ctrl''),
     (''ControlRight'', getModifierName os ''ctrl''),
     (''AltLeft'', getModifierName os ''alt''),
     (''AltRight'', getModifierName os ''alt''),
     (''MetaLeft'', getModifierName os ''meta''),
     (''MetaRight'', getModifierName os ''meta''),
     (''OSLeft'', getModifierName os ''meta''),
     (''OSRight'', getModifierName os ''meta''),
     (''CapsLock'', ''caps lock''),
     (''Tab'', ''tab''),
     (''Enter'', ''enter''),
     (''Space'', ''space''),
     (''Backspace'', ''backspace''),
     (''Delete'', ''delete''),
     (''Escape'', ''esc''),
     (''ArrowUp'', ''up''),
     (''ArrowDown'', ''down''),
     (''ArrowLeft'', ''left''),
     (''ArrowRight'', ''right''),
     (''Home'', ''home''),
     (''End'', ''end''),
     (''PageUp'', ''page up''),
     (''PageDown'', ''page down''),
     (''Insert'', ''insert''),
     (''PrintScreen'', ''print screen''),
     (''ScrollLock'', ''scroll lock''),
     (''Pause'', ''pause''),
     (''ContextMenu'', ''menu''),
     (''NumpadMultiply'', ''numpad *''),
     (''NumpadAdd'', ''numpad +''),
     (''NumpadSubtract'', ''numpad -''),
     (''NumpadDecimal'', ''numpad .''),
     (''NumpadDivide'', ''numpad /''),
     (''NumLock'', ''num lock'')]"

definition punctuationMap :: "(string \<times> string) list" where
  "punctuationMap =
    [(''Semicolon'', '';''),
     (''Equal'', ''=''),
     (''Comma'', '',''),
     (''Minus'', ''-''),
     (''Period'', ''.''),
     (''Slash'', ''/''),
     (''Backquote'', ''`''),
     (''BracketLeft'', ''[''),
     (''Backslash'', [CHR 0x5C]),
     (''BracketRight'', '']''),
     (''Quote'', [CHR 0x27])]"

definition keyMap :: "OSType \<Rightarrow> (string \<times> string) list" where
  "keyMap os =
    [(''Control'', (if os = Macos then ''ctrl'' else ''ctrl'')),
     (''Alt'', (if os = Macos then ''option'' else ''alt'')),
     (''Shift'', ''shift''),
     (''Meta'', (if os = Macos then ''command'' else if os = Windows then ''win'' else ''super'')),
     (''OS'', (if os = Macos then ''command'' else if os = Windows then ''win'' else ''super'')),
     (''CapsLock'', ''caps lock''),
     (''ArrowUp'', ''up''),
     (''ArrowDown'', ''down''),
     (''ArrowLeft'', ''left''),
     (''ArrowRight'', ''right''),
     (''Escape'', ''esc''),
     ('' '', ''space'')]"

text \<open>\<^verbatim>\<open>if (table[k]) return table[k]\<close>: the entry is used when it exists and is truthy.
  The tables are looked up by their own entries only.\<close>

definition lookup_truthy :: "(string \<times> string) list \<Rightarrow> string \<Rightarrow> string option" where
  "lookup_truthy table k =
     (case map_of table k of None \<Rightarrow> None | Some v \<Rightarrow> if truthy v then Some v else None)"

definition getKeyName :: "KeyboardEvent \<Rightarrow> OSType \<Rightarrow> string" where
  "getKeyName e osType =
     (if truthy (code e) then
        (if match_F_digits (code e) then toLowerCase (code e)
         else if match_Key_letter (code e) then toLowerCase (replace_first ''Key'' '''' (code e))
         else if match_Digit (code e) then replace_first ''Digit'' '''' (code e)
         else if match_Numpad_digit (code e) then toLowerCase (replace_first ''Numpad'' ''numpad '' (code e))
         else (case lookup_truthy (modifierMap osType) (code e) of
                 Some v \<Rightarrow> v
               | None \<Rightarrow>
                  (case lookup_truthy punctuationMap (code e) of
                     Some v \<Rightarrow> v
                   | None \<Rightarrow> camel_space (toLowerCase (code e)))))
      else if truthy (key e) then
        (case lookup_truthy (keyMap osType) (key e) of
           Some v \<Rightarrow> v
         | None \<Rightarrow> toLowerCase (key e))
      else ''unknown-'' @ string_of_nat (if keyCode e \<noteq> 0 then keyCode e else if which e \<noteq> 0 then which e else 0))"

text \<open>\<^verbatim>\<open>normalizeKey\<close>: a name of exactly two words whose first is \<^verbatim>\<open>left\<close> or
  \<^verbatim>\<open>right\<close> loses that word.\<close>

definition normalizeKey :: "string \<Rightarrow> string" where
  "normalizeKey k =
     (if startsWith k ''left '' \<or> startsWith k ''right '' then
        (let parts = split_on CHR '' '' k in
         if length parts = 2 then parts ! 1 else k)
      else k)"

text \<open>The field of a \<^verbatim>\<open>MouseEvent\<close> that the recorder reads.\<close>

record MouseEvent =
  button :: int

definition getMouseButtonName :: "MouseEvent \<Rightarrow> string option" where
  "getMouseButtonName e =
     (if button e = 0 then Some ''mouseleft''
      else if button e = 1 then Some ''mousemiddle''
      else if button e = 2 then Some ''mouseright''
      else if button e = 3 then Some ''mouse4''
      else if button e = 4 then Some ''mouse5''
      else Some (''mouse'' @ string_of_int (button e + 1)))"

definition isMouseButton :: "string \<Rightarrow> bool" where
  "isMouseButton inputName =
     (let lower = toLowerCase inputName in
      startsWith lower ''mouse'' \<or> lower = ''mouseleft'' \<or> lower = ''mouseright'' \<or> lower = ''mousemiddle'')"

definition displayNames :: "(string \<times> string) list" where
  "displayNames =
    [(''mouseleft'', ''Left Click''),
     (''mouseright'', ''Right Click''),
     (''mousemiddle'', ''Middle Click''),
     (''mouse1'', ''Left Click''),
     (''mouse2'', ''Right Click''),
     (''mouse3'', ''Middle Click''),
     (''mouse4'', ''Mouse 4''),
     (''mouse5'', ''Mouse 5''),
     (''mouseforward'', ''Mouse Forward''),
     (''mouseback'', ''Mouse Back'')]"

text \<open>\<^verbatim>\<open>lower.match(/^mouse(\d+)$/)\<close>: the digits captured, when the pattern matches.\<close>

definition match_mouse_digits :: "string \<Rightarrow> string option" where
  "match_mouse_digits s =
     (if startsWith s ''mouse'' \<and> drop 5 s \<noteq> [] \<and> list_all is_digit (drop 5 s)
      then Some (drop 5 s) else None)"

definition getMouseButtonDisplayName :: "string \<Rightarrow> string" where
  "getMouseButtonDisplayName buttonName =
     (let lower = toLowerCase buttonName in
      case lookup_truthy displayNames lower of
        Some v \<Rightarrow> v
      | None \<Rightarrow>
         (case match_mouse_digits lower of
            Some ds \<Rightarrow> ''Mouse '' @ ds
          | None \<Rightarrow> buttonName))"

text \<open>\<^verbatim>\<open>word.charAt(0).toUpperCase() + word.slice(1)\<close>\<close>

fun capitalize :: "string \<Rightarrow> string" where
  "capitalize [] = []"
| "capitalize (c # cs) = upper_char c # cs"

definition formatInputDisplay :: "string \<Rightarrow> string" where
  "formatInputDisplay inputName =
     (if isMouseButton inputName then getMouseButtonDisplayName inputName
      else join '' '' (map capitalize (split_on CHR '' '' inputName)))"

text \<open>\<^verbatim>\<open>part.trim()\<close>: white space and line terminators leave both ends.\<close>

definition is_space :: "char \<Rightarrow> bool" where
  "is_space c = (c \<in> set [CHR 0x20, CHR 0x09, CHR 0x0A, CHR 0x0B, CHR 0x0C, CHR 0x0D])"

definition trim :: "string \<Rightarrow> string" where
  "trim s = rev (dropWhile is_space (rev (dropWhile is_space s)))"

text \<open>How \<^verbatim>\<open>BabblShortcut\<close> renders a stored chord:
  \<^verbatim>\<open>current_binding.split("+").map((part) => formatInputDisplay(part.trim())).join(" + ")\<close>\<close>

definition display_binding :: "string \<Rightarrow> string" where
  "display_binding current =
     join '' + '' (map (\<lambda>part. formatInputDisplay (trim part)) (split_on CHR ''+'' current))"

section \<open>The shortcut recorder (\<^verbatim>\<open>BabblShortcut\<close>)\<close>

text \<open>
  The component \<^verbatim>\<open>BabblShortcut\<close> stands behind the toggle in
  \<^verbatim>\<open>src/components/settings/OnlineProviderToggle.tsx\<close>.
  The component state is the four \<^verbatim>\<open>useState\<close> cells. Each handler is a function from the
  state of the render it closes over to the state after its setters have run, together with the
  backend commands and notifications it issues, in order. A handler runs to its end before the
  next event is taken. \<^verbatim>\<open>preventDefault\<close>, \<^verbatim>\<open>stopPropagation\<close> and console logging are
  left out.
\<close>

record ShortcutBinding =
  name :: string
  description :: string
  current_binding :: string

record Recorder =
  keyPressed :: "string list"
  recordedKeys :: "string list"
  editingShortcutId :: "string option"
  originalBinding :: string

record Env =
  bindings :: "string \<rightharpoonup> ShortcutBinding"
  osType :: OSType

datatype Effect =
    UpdateBinding string string
  | ResumeBinding string
  | SuspendBinding string
  | ToastError string

text \<open>
  \<^verbatim>\<open>updateBinding\<close> is awaited inside \<^verbatim>\<open>try\<close>: it either resolves or rejects. A handler
  awaits it at most twice; the record says how the first and the second of these end.
  \<^verbatim>\<open>resumeBinding\<close> and \<^verbatim>\<open>suspendBinding\<close> carry their own \<^verbatim>\<open>.catch\<close>, so how they
  end changes nothing.
\<close>

record Outcome =
  update_ok :: bool
  rollback_ok :: bool

definition idle :: Recorder where
  "idle = \<lparr>keyPressed = [], recordedKeys = [], editingShortcutId = None, originalBinding = []\<rparr>"

definition handleKeyDown :: "Env \<Rightarrow> Outcome \<Rightarrow> Recorder \<Rightarrow> KeyboardEvent \<Rightarrow> Recorder \<times> Effect list" where
  "handleKeyDown env out st e =
     (if repeat e then (st, [])
      else if key e = ''Escape'' then
        (idle,
         (case editingShortcutId st of
            None \<Rightarrow> []
          | Some sid \<Rightarrow>
              if truthy sid \<and> truthy (originalBinding st) then
                (if update_ok out
                 then [UpdateBinding sid (originalBinding st), ResumeBinding sid]
                 else [UpdateBinding sid (originalBinding st),
                       ToastError ''settings.general.shortcut.errors.restore''])
              else if truthy sid then [ResumeBinding sid]
              else []))
      else
        (let rawKey = getKeyName e (osType env);
             k = normalizeKey rawKey
         in if k \<notin> set (keyPressed st) then
              (st\<lparr>keyPressed := keyPressed st @ [k],
                  recordedKeys := (if k \<notin> set (recordedKeys st) then recordedKeys st @ [k]
                                   else recordedKeys st)\<rparr>, [])
            else (st, [])))"

definition handleKeyUp :: "Env \<Rightarrow> Outcome \<Rightarrow> Recorder \<Rightarrow> KeyboardEvent \<Rightarrow> Recorder \<times> Effect list" where
  "handleKeyUp env out st e =
     (let rawKey = getKeyName e (osType env);
          k = normalizeKey rawKey;
          updatedKeyPressed = filter (\<lambda>x. x \<noteq> k) (keyPressed st);
          st1 = st\<lparr>keyPressed := updatedKeyPressed\<rparr>
      in if length updatedKeyPressed = 0 \<and> length (recordedKeys st) > 0 then
           (let newShortcut = join ''+'' (recordedKeys st) in
            case editingShortcutId st of
              None \<Rightarrow> (st1, [])
            | Some sid \<Rightarrow>
                if truthy sid \<and> bindings env sid \<noteq> None then
                  (idle,
                   (if update_ok out
                    then [UpdateBinding sid newShortcut, ResumeBinding sid]
                    else [UpdateBinding sid newShortcut,
                          ToastError ''settings.general.shortcut.errors.set''] @
                         (if truthy (originalBinding st) then
                            (if rollback_ok out
                             then [UpdateBinding sid (originalBinding st), ResumeBinding sid]
                             else [UpdateBinding sid (originalBinding st),
                                   ToastError ''settings.general.shortcut.errors.reset''])
                          else [])))
                else (st1, []))
         else (st1, []))"

definition handleMouseDown :: "Recorder \<Rightarrow> MouseEvent \<Rightarrow> Recorder \<times> Effect list" where
  "handleMouseDown st e =
     (if button e < 3 then (st, [])
      else
        (case getMouseButtonName e of
           None \<Rightarrow> (st, [])
         | Some buttonName \<Rightarrow>
             if truthy buttonName \<and> buttonName \<notin> set (keyPressed st) then
               (st\<lparr>keyPressed := keyPressed st @ [buttonName],
                   recordedKeys := (if buttonName \<notin> set (recordedKeys st)
                                    then recordedKeys st @ [buttonName]
                                    else recordedKeys st)\<rparr>, [])
             else (st, [])))"

definition handleMouseUp :: "Env \<Rightarrow> Outcome \<Rightarrow> Recorder \<Rightarrow> MouseEvent \<Rightarrow> Recorder \<times> Effect list" where
  "handleMouseUp env out st e =
     (if button e < 3 then (st, [])
      else
        (case getMouseButtonName e of
           None \<Rightarrow> (st, [])
         | Some buttonName \<Rightarrow>
             if \<not> truthy buttonName then (st, [])
             else
               (let updatedPressed = filter (\<lambda>x. x \<noteq> buttonName) (keyPressed st);
                    st1 = st\<lparr>keyPressed := updatedPressed\<rparr>
                in if length updatedPressed = 0 \<and> length (recordedKeys st) > 0 then
                     (let newShortcut = join ''+'' (recordedKeys st) in
                      case editingShortcutId st of
                        None \<Rightarrow> (st1, [])
                      | Some sid \<Rightarrow>
                          if truthy sid \<and> bindings env sid \<noteq> None then
                            (idle,
                             (if update_ok out
                              then [UpdateBinding sid newShortcut, ResumeBinding sid]
                              else [UpdateBinding sid newShortcut,
                                    ToastError ''settings.general.shortcut.errors.set''] @
                                   (if truthy (originalBinding st) then
                                      (if rollback_ok out
                                       then [UpdateBinding sid (originalBinding st), ResumeBinding sid]
                                       else [UpdateBinding sid (originalBinding st),
                                             ToastError ''settings.general.shortcut.errors.reset''])
                                    else [])))
                          else (st1, []))
                   else (st1, []))))"

definition handleContextMenu :: "Recorder \<Rightarrow> Recorder \<times> Effect list" where
  "handleContextMenu st = (st, [])"

text \<open>A click as \<^verbatim>\<open>handleClickOutside\<close> sees it: whether the editor element of the edited
  binding is registered in \<^verbatim>\<open>shortcutRefs\<close>, and whether it contains the target.\<close>

record ClickEvent =
  editor_mounted :: bool
  target_inside :: bool

definition handleClickOutside :: "Outcome \<Rightarrow> Recorder \<Rightarrow> ClickEvent \<Rightarrow> Recorder \<times> Effect list" where
  "handleClickOutside out st e =
     (if editor_mounted e \<and> \<not> target_inside e then
        (idle,
         (case editingShortcutId st of
            None \<Rightarrow> []
          | Some sid \<Rightarrow>
              if truthy sid \<and> truthy (originalBinding st) then
                (if update_ok out
                 then [UpdateBinding sid (originalBinding st), ResumeBinding sid]
                 else [UpdateBinding sid (originalBinding st),
                       ToastError ''settings.general.shortcut.errors.restore''])
              else if truthy sid then [ResumeBinding sid]
              else []))
      else (st, []))"

definition startRecording :: "Env \<Rightarrow> Recorder \<Rightarrow> string \<Rightarrow> Recorder \<times> Effect list" where
  "startRecording env st sid =
     (if editingShortcutId st = Some sid then (st, [])
      else
        (\<lparr>keyPressed = [], recordedKeys = [], editingShortcutId = Some sid,
          originalBinding = (case bindings env sid of
                               None \<Rightarrow> []
                             | Some b \<Rightarrow> if truthy (current_binding b) then current_binding b else [])\<rparr>,
         [SuspendBinding sid]))"

text \<open>The window listeners exist only while \<^verbatim>\<open>editingShortcutId\<close> is not \<^verbatim>\<open>null\<close>;
  \<^verbatim>\<open>startRecording\<close> is the click handler of the binding's own element.\<close>

datatype Event =
    KeyDown KeyboardEvent
  | KeyUp KeyboardEvent
  | MouseDown MouseEvent
  | MouseUp MouseEvent
  | ContextMenu
  | Click ClickEvent
  | StartRecording string

definition dispatch :: "Env \<Rightarrow> Outcome \<Rightarrow> Recorder \<Rightarrow> Event \<Rightarrow> Recorder \<times> Effect list" where
  "dispatch env out st ev =
     (case ev of
        StartRecording sid \<Rightarrow> startRecording env st sid
      | _ \<Rightarrow>
         (if editingShortcutId st = None then (st, [])
          else (case ev of
                  KeyDown e \<Rightarrow> handleKeyDown env out st e
                | KeyUp e \<Rightarrow> handleKeyUp env out st e
                | MouseDown e \<Rightarrow> handleMouseDown st e
                | MouseUp e \<Rightarrow> handleMouseUp env out st e
                | ContextMenu \<Rightarrow> handleContextMenu st
                | Click e \<Rightarrow> handleClickOutside out st e
                | StartRecording sid \<Rightarrow> startRecording env st sid)))"

text \<open>A run of events, each with the way the backend answers during it; the effects of the
  whole run in the order they are issued.\<close>

fun run :: "Env \<Rightarrow> Recorder \<Rightarrow> (Event \<times> Outcome) list \<Rightarrow> Recorder \<times> Effect list" where
  "run env st [] = (st, [])"
| "run env st ((ev, out) # rest) =
     (let (st1, fx1) = dispatch env out st ev;
          (st2, fx2) = run env st1 rest
      in (st2, fx1 @ fx2))"

definition resume_count :: "string \<Rightarrow> Effect list \<Rightarrow> nat" where
  "resume_count sid fx = length (filter (\<lambda>x. x = ResumeBinding sid) fx)"

fun is_update :: "Effect \<Rightarrow> bool" where
  "is_update (UpdateBinding _ _) = True"
| "is_update _ = False"

section \<open>Backend event subscriptions\<close>

text \<open>
  \<^verbatim>\<open>RecordingOverlay\<close> (\<^verbatim>\<open>src/overlay/RecordingOverlay.tsx\<close>) and
  \<^verbatim>\<open>TranslateToEnglish\<close> subscribe to backend events in a \<^verbatim>\<open>useEffect\<close>.
  The backend keeps the list of live subscriptions. \<^verbatim>\<open>listen(name, handler)\<close> adds one and
  hands back the function that removes it. An effect of a component gives React a cleanup
  function or nothing; on unmount React runs the cleanup it was given.
\<close>

type_synonym subscriptions = "string list"

definition listen :: "string \<Rightarrow> subscriptions \<Rightarrow> subscriptions \<times> (subscriptions \<Rightarrow> subscriptions)" where
  "listen event subs = (subs @ [event], remove1 event)"

text \<open>\<^verbatim>\<open>setupEventListeners\<close> of \<^verbatim>\<open>RecordingOverlay\<close>: an async function whose result is the
  cleanup closure.\<close>

definition setupEventListeners :: "subscriptions \<Rightarrow> subscriptions \<times> (subscriptions \<Rightarrow> subscriptions)" where
  "setupEventListeners subs =
     (let (s1, unlistenShow) = listen ''show-overlay'' subs;
          (s2, unlistenHide) = listen ''hide-overlay'' s1;
          (s3, unlistenLevel) = listen ''mic-level'' s2
      in (s3, (\<lambda>s. unlistenLevel (unlistenHide (unlistenShow s)))))"

text \<open>The effect body of \<^verbatim>\<open>RecordingOverlay\<close> calls \<^verbatim>\<open>setupEventListeners()\<close> as a
  statement and returns nothing.\<close>

definition RecordingOverlay_effect :: "subscriptions \<Rightarrow> subscriptions \<times> (subscriptions \<Rightarrow> subscriptions) option" where
  "RecordingOverlay_effect subs = (let (s, cleanup) = setupEventListeners subs in (s, None))"

text \<open>The effect body of \<^verbatim>\<open>TranslateToEnglish\<close> returns a function that awaits the
  \<^verbatim>\<open>listen\<close> promise and calls what it resolves to.\<close>

definition TranslateToEnglish_effect :: "subscriptions \<Rightarrow> subscriptions \<times> (subscriptions \<Rightarrow> subscriptions) option" where
  "TranslateToEnglish_effect subs =
     (let (s, modelStateUnlisten) = listen ''model-state-changed'' subs in (s, Some modelStateUnlisten))"

definition unmount :: "subscriptions \<times> (subscriptions \<Rightarrow> subscriptions) option \<Rightarrow> subscriptions" where
  "unmount m = (case snd m of None \<Rightarrow> fst m | Some cleanup \<Rightarrow> cleanup (fst m))"

section \<open>Level smoothing (\<^verbatim>\<open>RecordingOverlay\<close>)\<close>

text \<open>
  The \<^verbatim>\<open>mic-level\<close> listener maps over the sixteen stored levels. Numbers are taken as
  exact reals: the rounding of the double-precision operations is outside this model.
  \<^verbatim>\<open>newLevels[i] || 0\<close> is \<open>0\<close> past the end of the payload.
\<close>

definition target_at :: "real list \<Rightarrow> nat \<Rightarrow> real" where
  "target_at newLevels i = (if i < length newLevels then newLevels ! i else 0)"

definition smooth_levels :: "real list \<Rightarrow> real list \<Rightarrow> real list" where
  "smooth_levels smoothed newLevels =
     map (\<lambda>(prev, i). prev * 0.7 + target_at newLevels i * 0.3)
         (zip smoothed [0 ..< length smoothed])"

definition initial_levels :: "real list" where
  "initial_levels = replicate 16 0"

text \<open>The stored levels after a sequence of \<^verbatim>\<open>mic-level\<close> payloads.\<close>

fun feed :: "real list \<Rightarrow> real list list \<Rightarrow> real list" where
  "feed smoothed [] = smoothed"
| "feed smoothed (p # ps) = feed (smooth_levels smoothed p) ps"

section \<open>Concrete inputs\<close>

text \<open>The events of the chord \<^verbatim>\<open>Ctrl+A\<close> and of Escape as a browser delivers them, a settings
  store with one binding, and a backend that accepts or rejects \<^verbatim>\<open>updateBinding\<close>.\<close>

definition ControlLeft_event :: KeyboardEvent where
  "ControlLeft_event = \<lparr>code = ''ControlLeft'', key = ''Control'', keyCode = 17, which = 17, repeat = False\<rparr>"

definition KeyA_event :: KeyboardEvent where
  "KeyA_event = \<lparr>code = ''KeyA'', key = ''a'', keyCode = 65, which = 65, repeat = False\<rparr>"

definition Escape_event :: KeyboardEvent where
  "Escape_event = \<lparr>code = ''Escape'', key = ''Escape'', keyCode = 27, which = 27, repeat = False\<rparr>"

definition example_env :: Env where
  "example_env =
     \<lparr>bindings = [''transcribe'' \<mapsto> \<lparr>name = ''Transcribe'', description = ''Start dictation'',
                                       current_binding = ''ctrl+space''\<rparr>],
      osType = Linux\<rparr>"

definition rejecting :: Outcome where
  "rejecting = \<lparr>update_ok = False, rollback_ok = False\<rparr>"

definition accepting :: Outcome where
  "accepting = \<lparr>update_ok = True, rollback_ok = True\<rparr>"

section \<open>Auxiliary notions for the display format\<close>

text \<open>These are not in the source; the proofs about \<^const>\<open>formatInputDisplay\<close> use them.
  A string is trimmed when neither end is white space. \<open>title_case\<close> is the character-level
  reading of the word-by-word capitalisation: the flag says whether the next character starts
  a word. \<open>fixed_names\<close> lists the values of the \<^verbatim>\<open>displayNames\<close> table.\<close>

definition trimmed :: "string \<Rightarrow> bool" where
  "trimmed s = (s = [] \<or> (\<not> is_space (hd s) \<and> \<not> is_space (last s)))"

fun title_case :: "bool \<Rightarrow> string \<Rightarrow> string" where
  "title_case b [] = []"
| "title_case b (c # cs) =
     (if c = CHR '' '' then CHR '' '' # title_case True cs
      else (if b then upper_char c else c) # title_case False cs)"

definition fixed_names :: "string list" where
  "fixed_names = [''Left Click'', ''Right Click'', ''Middle Click'', ''Mouse 4'', ''Mouse 5'',
                  ''Mouse Forward'', ''Mouse Back'']"

section \<open>Facts about the key names\<close>

lemmas char_defs = lower_char_def upper_char_def is_upper_def is_lower_def is_digit_def
  upper_letters_def lower_letters_def

lemmas key_defs = getKeyName_def truthy_def match_F_digits_def match_Key_letter_def match_Digit_def
  match_Numpad_digit_def lookup_truthy_def modifierMap_def punctuationMap_def toLowerCase_def
  startsWith_def

lemma getKeyName_modifier_codes:
  "getKeyName (e\<lparr>code := ''ShiftLeft''\<rparr>) os = ''shift''"
  "getKeyName (e\<lparr>code := ''ShiftRight''\<rparr>) os = ''shift''"
  "getKeyName (e\<lparr>code := ''ControlLeft''\<rparr>) os = ''ctrl''"
  "getKeyName (e\<lparr>code := ''ControlRight''\<rparr>) os = ''ctrl''"
  "getKeyName (e\<lparr>code := ''AltLeft''\<rparr>) os = (if os = Macos then ''option'' else ''alt'')"
  "getKeyName (e\<lparr>code := ''AltRight''\<rparr>) os = (if os = Macos then ''option'' else ''alt'')"
  "getKeyName (e\<lparr>code := ''MetaLeft''\<rparr>) os = (if os = Macos then ''command'' else ''super'')"
  "getKeyName (e\<lparr>code := ''MetaRight''\<rparr>) os = (if os = Macos then ''command'' else ''super'')"
  by (simp_all add: key_defs char_defs)

text \<open>
  Claim C5. For each of the code pairs ShiftLeft/ShiftRight, ControlLeft/ControlRight,
  AltLeft/AltRight and MetaLeft/MetaRight, and for every OS type, \<^const>\<open>getKeyName\<close> gives the
  left and the right event the same token, whatever the other fields of the two events are;
  the tokens stay equal through \<^const>\<open>normalizeKey\<close>, which is what the recorder stores.
\<close>

theorem modifier_pairs_collapse:
  "getKeyName (l\<lparr>code := ''ShiftLeft''\<rparr>) os = getKeyName (r\<lparr>code := ''ShiftRight''\<rparr>) os \<and>
   getKeyName (l\<lparr>code := ''ControlLeft''\<rparr>) os = getKeyName (r\<lparr>code := ''ControlRight''\<rparr>) os \<and>
   getKeyName (l\<lparr>code := ''AltLeft''\<rparr>) os = getKeyName (r\<lparr>code := ''AltRight''\<rparr>) os \<and>
   getKeyName (l\<lparr>code := ''MetaLeft''\<rparr>) os = getKeyName (r\<lparr>code := ''MetaRight''\<rparr>) os \<and>
   normalizeKey (getKeyName (l\<lparr>code := ''ShiftLeft''\<rparr>) os)
     = normalizeKey (getKeyName (r\<lparr>code := ''ShiftRight''\<rparr>) os) \<and>
   normalizeKey (getKeyName (l\<lparr>code := ''ControlLeft''\<rparr>) os)
     = normalizeKey (getKeyName (r\<lparr>code := ''ControlRight''\<rparr>) os) \<and>
   normalizeKey (getKeyName (l\<lparr>code := ''AltLeft''\<rparr>) os)
     = normalizeKey (getKeyName (r\<lparr>code := ''AltRight''\<rparr>) os) \<and>
   normalizeKey (getKeyName (l\<lparr>code := ''MetaLeft''\<rparr>) os)
     = normalizeKey (getKeyName (r\<lparr>code := ''MetaRight''\<rparr>) os)"
  by (simp only: getKeyName_modifier_codes)

text \<open>
  The last branch of the code path lower-cases the code before it looks for a lower-case
  letter followed by an upper-case one, so the replacement finds nothing to separate.
\<close>

lemma camel_space_no_upper: "\<forall>c \<in> set s. \<not> is_upper c \<Longrightarrow> camel_space s = s"
  by (induction s rule: camel_space.induct) auto

lemma lower_char_not_upper: "\<not> is_upper (lower_char c)"
  by (auto simp: char_defs)

lemma camel_space_toLowerCase: "camel_space (toLowerCase s) = toLowerCase s"
  by (rule camel_space_no_upper) (simp add: toLowerCase_def lower_char_not_upper)

lemma camel_space_before_lowering: "toLowerCase (camel_space ''IntlBackslash'') = ''intl backslash''"
  by (simp add: toLowerCase_def char_defs)

text \<open>
  Claim C7. The claim says that a code matching no pattern and no table comes back lower-cased
  with its camel-case boundaries separated by spaces, \<^verbatim>\<open>IntlBackslash\<close> giving
  \<^verbatim>\<open>intl backslash\<close>. On the code the event with code \<^verbatim>\<open>IntlBackslash\<close> is named
  \<^verbatim>\<open>intlbackslash\<close> for every OS type: no space is inserted.
\<close>

theorem fallback_IntlBackslash:
  "getKeyName (e\<lparr>code := ''IntlBackslash''\<rparr>) os = ''intlbackslash'' \<and>
   getKeyName (e\<lparr>code := ''IntlBackslash''\<rparr>) os \<noteq> ''intl backslash''"
  by (simp add: key_defs char_defs)

section \<open>Facts about the recorder\<close>

lemma token_ControlLeft: "normalizeKey (getKeyName ControlLeft_event os) = ''ctrl''"
  by (simp add: ControlLeft_event_def key_defs char_defs normalizeKey_def)

lemma token_KeyA: "normalizeKey (getKeyName KeyA_event os) = ''a''"
  by (simp add: KeyA_event_def key_defs char_defs normalizeKey_def)

lemma getMouseButtonName_extra:
  "3 \<le> button e \<Longrightarrow> getMouseButtonName e = Some (''mouse'' @ string_of_int (button e + 1))"
  by (simp add: getMouseButtonName_def string_of_int_def digit_char_def)

text \<open>
  Claim C1. The claim says that every cancel (Escape, or a click outside the editor) ends the
  session and calls \<^verbatim>\<open>resumeBinding\<close> exactly once, also when the write that restores
  the snapshot fails. On the code, a session on the binding \<^verbatim>\<open>transcribe\<close> whose snapshot is
  \<^verbatim>\<open>ctrl+space\<close>, cancelled while the backend rejects \<^verbatim>\<open>updateBinding\<close>, ends with one
  rejected update and one notification and without any \<^verbatim>\<open>resumeBinding\<close>: the resume sits
  in the \<^verbatim>\<open>try\<close> block behind the write. Escape and the outside click behave alike.
\<close>

theorem cancel_with_failed_restore:
  "run example_env idle [(StartRecording ''transcribe'', accepting), (KeyDown Escape_event, rejecting)]
     = (idle, [SuspendBinding ''transcribe'', UpdateBinding ''transcribe'' ''ctrl+space'',
               ToastError ''settings.general.shortcut.errors.restore'']) \<and>
   run example_env idle [(StartRecording ''transcribe'', accepting),
                         (Click \<lparr>editor_mounted = True, target_inside = False\<rparr>, rejecting)]
     = (idle, [SuspendBinding ''transcribe'', UpdateBinding ''transcribe'' ''ctrl+space'',
               ToastError ''settings.general.shortcut.errors.restore'']) \<and>
   resume_count ''transcribe''
     (snd (run example_env idle
             [(StartRecording ''transcribe'', accepting), (KeyDown Escape_event, rejecting)])) = 0"
  by (simp add: dispatch_def startRecording_def handleKeyDown_def handleClickOutside_def idle_def
      example_env_def Escape_event_def rejecting_def accepting_def truthy_def resume_count_def)

text \<open>When the restoring write succeeds, or there is no snapshot to restore, the cancel does
  resume the binding once.\<close>

lemma cancel_resumes_otherwise:
  "truthy sid \<Longrightarrow> update_ok out \<or> \<not> truthy (originalBinding st) \<Longrightarrow>
   editingShortcutId st = Some sid \<Longrightarrow> \<not> repeat e \<Longrightarrow> key e = ''Escape'' \<Longrightarrow>
   fst (dispatch env out st (KeyDown e)) = idle \<and>
   resume_count sid (snd (dispatch env out st (KeyDown e))) = 1"
  by (auto simp: dispatch_def handleKeyDown_def resume_count_def)

text \<open>
  Claim C2, as stated: starting a session for another id while one is open would first close
  the open one and release its suspension. On the code, with the binding \<^verbatim>\<open>cancel\<close> being
  recorded, a start for \<^verbatim>\<open>transcribe\<close> only suspends \<^verbatim>\<open>transcribe\<close> and overwrites the
  session: nothing is issued for \<^verbatim>\<open>cancel\<close>.
\<close>

theorem start_other_id_no_force_close:
  "startRecording example_env
      \<lparr>keyPressed = [], recordedKeys = [], editingShortcutId = Some ''cancel'', originalBinding = ''esc''\<rparr>
      ''transcribe''
   = (\<lparr>keyPressed = [], recordedKeys = [], editingShortcutId = Some ''transcribe'',
       originalBinding = ''ctrl+space''\<rparr>,
      [SuspendBinding ''transcribe'']) \<and>
   resume_count ''cancel'' (snd (startRecording example_env
      \<lparr>keyPressed = [], recordedKeys = [], editingShortcutId = Some ''cancel'', originalBinding = ''esc''\<rparr>
      ''transcribe'')) = 0"
  by (simp add: startRecording_def example_env_def truthy_def resume_count_def)

text \<open>
  Claim C2, amended. The recorder holds at most one edited id. A start for the id being
  recorded changes nothing and issues nothing. A start for any other id, from idle or over an
  open session, issues exactly one \<^verbatim>\<open>suspendBinding\<close> for the new id and replaces the session:
  the new id, its current chord as the snapshot (empty when it has none), nothing held and
  nothing recorded.
\<close>

theorem startRecording_policy:
  "(editingShortcutId st = Some sid \<longrightarrow> startRecording env st sid = (st, [])) \<and>
   (editingShortcutId st \<noteq> Some sid \<longrightarrow>
      snd (startRecording env st sid) = [SuspendBinding sid] \<and>
      editingShortcutId (fst (startRecording env st sid)) = Some sid \<and>
      keyPressed (fst (startRecording env st sid)) = [] \<and>
      recordedKeys (fst (startRecording env st sid)) = [] \<and>
      originalBinding (fst (startRecording env st sid)) =
        (case bindings env sid of None \<Rightarrow> [] | Some b \<Rightarrow> current_binding b))"
  by (auto simp: startRecording_def truthy_def split: option.splits)

theorem startRecording_policy_witness:
  "startRecording example_env
     \<lparr>keyPressed = [''ctrl''], recordedKeys = [''ctrl''], editingShortcutId = Some ''transcribe'',
       originalBinding = ''ctrl+space''\<rparr>
     ''transcribe''
   = (\<lparr>keyPressed = [''ctrl''], recordedKeys = [''ctrl''], editingShortcutId = Some ''transcribe'',
       originalBinding = ''ctrl+space''\<rparr>, []) \<and>
   snd (startRecording example_env
     \<lparr>keyPressed = [''esc''], recordedKeys = [''esc''], editingShortcutId = Some ''cancel'',
       originalBinding = ''esc''\<rparr>
     ''transcribe'') = [SuspendBinding ''transcribe'']"
  using startRecording_policy
    [where st = "\<lparr>keyPressed = [''ctrl''], recordedKeys = [''ctrl''],
                   editingShortcutId = Some ''transcribe'', originalBinding = ''ctrl+space''\<rparr>"
       and sid = "''transcribe''" and env = example_env]
    startRecording_policy
    [where st = "\<lparr>keyPressed = [''esc''], recordedKeys = [''esc''],
                   editingShortcutId = Some ''cancel'', originalBinding = ''esc''\<rparr>"
       and sid = "''transcribe''" and env = example_env]
  by simp

subsection \<open>Single steps of a session\<close>

lemma step_start:
  "editingShortcutId prior \<noteq> Some sid \<Longrightarrow> bindings env sid = Some b \<Longrightarrow>
   dispatch env out prior (StartRecording sid) =
     (\<lparr>keyPressed = [], recordedKeys = [], editingShortcutId = Some sid,
       originalBinding = current_binding b\<rparr>, [SuspendBinding sid])"
  by (simp add: dispatch_def startRecording_def truthy_def)

lemma step_keydown:
  "\<not> repeat e \<Longrightarrow> key e \<noteq> ''Escape'' \<Longrightarrow>
   normalizeKey (getKeyName e (osType env)) = k \<Longrightarrow> k \<notin> set held \<Longrightarrow>
   dispatch env out \<lparr>keyPressed = held, recordedKeys = rec, editingShortcutId = Some sid,
                      originalBinding = orig\<rparr> (KeyDown e) =
     (\<lparr>keyPressed = held @ [k],
       recordedKeys = (if k \<notin> set rec then rec @ [k] else rec),
       editingShortcutId = Some sid, originalBinding = orig\<rparr>, [])"
  by (simp add: dispatch_def handleKeyDown_def Let_def)

lemma step_keyup_held:
  "normalizeKey (getKeyName e (osType env)) = k \<Longrightarrow> filter (\<lambda>x. x \<noteq> k) held \<noteq> [] \<Longrightarrow>
   dispatch env out \<lparr>keyPressed = held, recordedKeys = rec, editingShortcutId = Some sid,
                      originalBinding = orig\<rparr> (KeyUp e) =
     (\<lparr>keyPressed = filter (\<lambda>x. x \<noteq> k) held, recordedKeys = rec, editingShortcutId = Some sid,
       originalBinding = orig\<rparr>, [])"
  by (simp add: dispatch_def handleKeyUp_def Let_def)

lemma step_keyup_commit:
  "normalizeKey (getKeyName e (osType env)) = k \<Longrightarrow> filter (\<lambda>x. x \<noteq> k) held = [] \<Longrightarrow>
   rec \<noteq> [] \<Longrightarrow> truthy sid \<Longrightarrow> bindings env sid = Some b \<Longrightarrow>
   dispatch env out \<lparr>keyPressed = held, recordedKeys = rec, editingShortcutId = Some sid,
                      originalBinding = orig\<rparr> (KeyUp e) =
     (idle,
      (if update_ok out then [UpdateBinding sid (join ''+'' rec), ResumeBinding sid]
       else [UpdateBinding sid (join ''+'' rec), ToastError ''settings.general.shortcut.errors.set''] @
            (if truthy orig then
               (if rollback_ok out then [UpdateBinding sid orig, ResumeBinding sid]
                else [UpdateBinding sid orig, ToastError ''settings.general.shortcut.errors.reset''])
             else [])))"
  by (simp add: dispatch_def handleKeyUp_def Let_def)

lemma ControlLeft_event_simps: "\<not> repeat ControlLeft_event" "key ControlLeft_event \<noteq> ''Escape''"
  by (simp_all add: ControlLeft_event_def)

lemma KeyA_event_simps: "\<not> repeat KeyA_event" "key KeyA_event \<noteq> ''Escape''"
  by (simp_all add: KeyA_event_def)

lemma run_two_downs:
  assumes "bindings env sid = Some b" and "editingShortcutId prior \<noteq> Some sid"
  shows "run env prior ([(StartRecording sid, oa), (KeyDown ControlLeft_event, ob),
                         (KeyDown KeyA_event, oc)] @ rest)
      = (fst (run env \<lparr>keyPressed = [''ctrl'', ''a''], recordedKeys = [''ctrl'', ''a''],
          editingShortcutId = Some sid, originalBinding = current_binding b\<rparr> rest),
         SuspendBinding sid # snd (run env \<lparr>keyPressed = [''ctrl'', ''a''], recordedKeys = [''ctrl'', ''a''],
          editingShortcutId = Some sid, originalBinding = current_binding b\<rparr> rest))"
proof -
  have 1: "dispatch env oa prior (StartRecording sid) =
     (\<lparr>keyPressed = [], recordedKeys = [], editingShortcutId = Some sid,
       originalBinding = current_binding b\<rparr>, [SuspendBinding sid])"
    using assms by (simp add: step_start)
  have 2: "dispatch env ob \<lparr>keyPressed = [], recordedKeys = [], editingShortcutId = Some sid,
       originalBinding = current_binding b\<rparr> (KeyDown ControlLeft_event) =
     (\<lparr>keyPressed = [''ctrl''], recordedKeys = [''ctrl''], editingShortcutId = Some sid,
       originalBinding = current_binding b\<rparr>, [])"
    by (simp add: step_keydown [where k = "''ctrl''"] ControlLeft_event_simps token_ControlLeft)
  have 3: "dispatch env oc \<lparr>keyPressed = [''ctrl''], recordedKeys = [''ctrl''], editingShortcutId = Some sid,
       originalBinding = current_binding b\<rparr> (KeyDown KeyA_event) =
     (\<lparr>keyPressed = [''ctrl'', ''a''], recordedKeys = [''ctrl'', ''a''], editingShortcutId = Some sid,
       originalBinding = current_binding b\<rparr>, [])"
    by (simp add: step_keydown [where k = "''a''"] KeyA_event_simps token_KeyA)
  show ?thesis
    by (simp add: 1 2 3 split: prod.splits)
qed

lemma up_ctrl_first:
  "dispatch env out \<lparr>keyPressed = [''ctrl'', ''a''], recordedKeys = [''ctrl'', ''a''],
          editingShortcutId = Some sid, originalBinding = orig\<rparr> (KeyUp ControlLeft_event)
   = (\<lparr>keyPressed = [''a''], recordedKeys = [''ctrl'', ''a''],
          editingShortcutId = Some sid, originalBinding = orig\<rparr>, [])"
  by (simp add: step_keyup_held [where k = "''ctrl''"] token_ControlLeft)

lemma up_a_first:
  "dispatch env out \<lparr>keyPressed = [''ctrl'', ''a''], recordedKeys = [''ctrl'', ''a''],
          editingShortcutId = Some sid, originalBinding = orig\<rparr> (KeyUp KeyA_event)
   = (\<lparr>keyPressed = [''ctrl''], recordedKeys = [''ctrl'', ''a''],
          editingShortcutId = Some sid, originalBinding = orig\<rparr>, [])"
  by (simp add: step_keyup_held [where k = "''a''"] token_KeyA)

lemma up_a_last:
  "truthy sid \<Longrightarrow> bindings env sid = Some b \<Longrightarrow>
   dispatch env out \<lparr>keyPressed = [''a''], recordedKeys = [''ctrl'', ''a''],
          editingShortcutId = Some sid, originalBinding = orig\<rparr> (KeyUp KeyA_event)
   = (idle,
      [UpdateBinding sid ''ctrl+a''] @
      (if update_ok out then [ResumeBinding sid]
       else ToastError ''settings.general.shortcut.errors.set'' #
            (if truthy orig then
               (if rollback_ok out then [UpdateBinding sid orig, ResumeBinding sid]
                else [UpdateBinding sid orig, ToastError ''settings.general.shortcut.errors.reset''])
             else [])))"
  by (simp add: step_keyup_commit [where k = "''a''"] token_KeyA)

lemma up_ctrl_last:
  "truthy sid \<Longrightarrow> bindings env sid = Some b \<Longrightarrow>
   dispatch env out \<lparr>keyPressed = [''ctrl''], recordedKeys = [''ctrl'', ''a''],
          editingShortcutId = Some sid, originalBinding = orig\<rparr> (KeyUp ControlLeft_event)
   = (idle,
      [UpdateBinding sid ''ctrl+a''] @
      (if update_ok out then [ResumeBinding sid]
       else ToastError ''settings.general.shortcut.errors.set'' #
            (if truthy orig then
               (if rollback_ok out then [UpdateBinding sid orig, ResumeBinding sid]
                else [UpdateBinding sid orig, ToastError ''settings.general.shortcut.errors.reset''])
             else [])))"
  by (simp add: step_keyup_commit [where k = "''ctrl''"] token_ControlLeft)

lemma up_a_last_empty_id:
  "dispatch env out \<lparr>keyPressed = [''a''], recordedKeys = [''ctrl'', ''a''],
          editingShortcutId = Some [], originalBinding = orig\<rparr> (KeyUp KeyA_event)
   = (\<lparr>keyPressed = [], recordedKeys = [''ctrl'', ''a''],
          editingShortcutId = Some [], originalBinding = orig\<rparr>, [])"
  by (simp add: dispatch_def handleKeyUp_def Let_def token_KeyA truthy_def)

text \<open>
  Claim C3, as stated: in every session on an existing binding with ControlLeft pressed, KeyA
  pressed and both released, exactly one \<^verbatim>\<open>updateBinding\<close> is issued, with the value
  \<^verbatim>\<open>ctrl+a\<close>. On the code this depends on the backend and on the id. For the binding
  \<^verbatim>\<open>transcribe\<close> whose chord is already \<^verbatim>\<open>ctrl+a\<close>, with a backend that rejects the update
  and accepts the rollback, the commit issues \<^verbatim>\<open>updateBinding\<close> twice, both times with the
  value \<^verbatim>\<open>ctrl+a\<close>. For a binding stored under the empty id the same events issue no
  \<^verbatim>\<open>updateBinding\<close> at all, and the session stays open.
\<close>

theorem chord_ctrl_a_rejected_or_empty_id:
  "run \<lparr>bindings = [''transcribe'' \<mapsto> \<lparr>name = ''Transcribe'', description = ''Start dictation'',
                                          current_binding = ''ctrl+a''\<rparr>],
        osType = Linux\<rparr>
       idle
       [(StartRecording ''transcribe'', accepting), (KeyDown ControlLeft_event, accepting),
        (KeyDown KeyA_event, accepting), (KeyUp ControlLeft_event, accepting),
        (KeyUp KeyA_event, \<lparr>update_ok = False, rollback_ok = True\<rparr>)]
     = (idle, [SuspendBinding ''transcribe'', UpdateBinding ''transcribe'' ''ctrl+a'',
               ToastError ''settings.general.shortcut.errors.set'',
               UpdateBinding ''transcribe'' ''ctrl+a'', ResumeBinding ''transcribe'']) \<and>
   run \<lparr>bindings = [[] \<mapsto> \<lparr>name = ''Transcribe'', description = ''Start dictation'',
                            current_binding = ''ctrl+space''\<rparr>],
        osType = Linux\<rparr>
       idle
       [(StartRecording [], accepting), (KeyDown ControlLeft_event, accepting),
        (KeyDown KeyA_event, accepting), (KeyUp ControlLeft_event, accepting),
        (KeyUp KeyA_event, accepting)]
     = (\<lparr>keyPressed = [], recordedKeys = [''ctrl'', ''a''], editingShortcutId = Some [],
         originalBinding = ''ctrl+space''\<rparr>,
        [SuspendBinding []])"
proof -
  let ?e1 = "\<lparr>bindings = [''transcribe'' \<mapsto> \<lparr>name = ''Transcribe'', description = ''Start dictation'',
                                          current_binding = ''ctrl+a''\<rparr>],
        osType = Linux\<rparr>"
  let ?e2 = "\<lparr>bindings = [[] \<mapsto> \<lparr>name = ''Transcribe'', description = ''Start dictation'',
                            current_binding = ''ctrl+space''\<rparr>],
        osType = Linux\<rparr>"
  have b1: "bindings ?e1 ''transcribe'' = Some \<lparr>name = ''Transcribe'', description = ''Start dictation'',
                                          current_binding = ''ctrl+a''\<rparr>"
    by simp
  have b2: "bindings ?e2 [] = Some \<lparr>name = ''Transcribe'', description = ''Start dictation'',
                            current_binding = ''ctrl+space''\<rparr>"
    by simp
  have i1: "editingShortcutId idle \<noteq> Some ''transcribe''" by (simp add: idle_def)
  have i2: "editingShortcutId idle \<noteq> Some []" by (simp add: idle_def)
  have t: "truthy ''transcribe''" by (simp add: truthy_def)
  have one: "run ?e1 idle
       [(StartRecording ''transcribe'', accepting), (KeyDown ControlLeft_event, accepting),
        (KeyDown KeyA_event, accepting), (KeyUp ControlLeft_event, accepting),
        (KeyUp KeyA_event, \<lparr>update_ok = False, rollback_ok = True\<rparr>)]
     = (idle, [SuspendBinding ''transcribe'', UpdateBinding ''transcribe'' ''ctrl+a'',
               ToastError ''settings.general.shortcut.errors.set'',
               UpdateBinding ''transcribe'' ''ctrl+a'', ResumeBinding ''transcribe''])"
    using run_two_downs [OF b1 i1, of accepting accepting accepting
        "[(KeyUp ControlLeft_event, accepting), (KeyUp KeyA_event, \<lparr>update_ok = False, rollback_ok = True\<rparr>)]"]
    by (simp add: up_ctrl_first up_a_last [OF t b1] truthy_def)
  have two: "run ?e2 idle
       [(StartRecording [], accepting), (KeyDown ControlLeft_event, accepting),
        (KeyDown KeyA_event, accepting), (KeyUp ControlLeft_event, accepting),
        (KeyUp KeyA_event, accepting)]
     = (\<lparr>keyPressed = [], recordedKeys = [''ctrl'', ''a''], editingShortcutId = Some [],
         originalBinding = ''ctrl+space''\<rparr>,
        [SuspendBinding []])"
    using run_two_downs [OF b2 i2, of accepting accepting accepting
        "[(KeyUp ControlLeft_event, accepting), (KeyUp KeyA_event, accepting)]"]
    by (simp add: up_ctrl_first up_a_last_empty_id)
  from one two show ?thesis by (rule conjI)
qed

text \<open>
  Claim C3, amended. A session is started on a binding that the settings hold under a non-empty
  id \<open>sid\<close>; ControlLeft goes down, then KeyA, then both go up, in either order. After the two
  presses the recorded sequence is \<^verbatim>\<open>["ctrl","a"]\<close>, in press order, and it stays so after
  the first release, which issues nothing. The second release commits, once, and leaves the
  recorder idle: its first call is \<^verbatim>\<open>updateBinding\<close> with the value \<^verbatim>\<open>ctrl+a\<close>. When the
  backend accepts that update it is the only \<^verbatim>\<open>updateBinding\<close> of the session and one resume
  follows it. When the backend rejects it, a notification follows and, if the snapshot is not
  empty, a second \<^verbatim>\<open>updateBinding\<close> that writes the snapshot back (then a resume, or a second
  notification when this write is rejected too).
\<close>

theorem chord_ctrl_a_lifecycle:
  assumes "truthy sid" and "bindings env sid = Some b" and "editingShortcutId prior \<noteq> Some sid"
  shows
   "run env prior [(StartRecording sid, oa), (KeyDown ControlLeft_event, ob), (KeyDown KeyA_event, oc)]
      = (\<lparr>keyPressed = [''ctrl'', ''a''], recordedKeys = [''ctrl'', ''a''],
          editingShortcutId = Some sid, originalBinding = current_binding b\<rparr>, [SuspendBinding sid]) \<and>
    run env prior [(StartRecording sid, oa), (KeyDown ControlLeft_event, ob), (KeyDown KeyA_event, oc),
                 (KeyUp ControlLeft_event, od)]
      = (\<lparr>keyPressed = [''a''], recordedKeys = [''ctrl'', ''a''],
          editingShortcutId = Some sid, originalBinding = current_binding b\<rparr>, [SuspendBinding sid]) \<and>
    run env prior [(StartRecording sid, oa), (KeyDown ControlLeft_event, ob), (KeyDown KeyA_event, oc),
                 (KeyUp KeyA_event, od)]
      = (\<lparr>keyPressed = [''ctrl''], recordedKeys = [''ctrl'', ''a''],
          editingShortcutId = Some sid, originalBinding = current_binding b\<rparr>, [SuspendBinding sid]) \<and>
    run env prior [(StartRecording sid, oa), (KeyDown ControlLeft_event, ob), (KeyDown KeyA_event, oc),
                 (KeyUp ControlLeft_event, od), (KeyUp KeyA_event, oe)]
      = (idle,
         [SuspendBinding sid, UpdateBinding sid ''ctrl+a''] @
         (if update_ok oe then [ResumeBinding sid]
          else ToastError ''settings.general.shortcut.errors.set'' #
               (if truthy (current_binding b) then
                  (if rollback_ok oe then [UpdateBinding sid (current_binding b), ResumeBinding sid]
                   else [UpdateBinding sid (current_binding b),
                         ToastError ''settings.general.shortcut.errors.reset''])
                else []))) \<and>
    run env prior [(StartRecording sid, oa), (KeyDown ControlLeft_event, ob), (KeyDown KeyA_event, oc),
                 (KeyUp KeyA_event, od), (KeyUp ControlLeft_event, oe)]
      = (idle,
         [SuspendBinding sid, UpdateBinding sid ''ctrl+a''] @
         (if update_ok oe then [ResumeBinding sid]
          else ToastError ''settings.general.shortcut.errors.set'' #
               (if truthy (current_binding b) then
                  (if rollback_ok oe then [UpdateBinding sid (current_binding b), ResumeBinding sid]
                   else [UpdateBinding sid (current_binding b),
                         ToastError ''settings.general.shortcut.errors.reset''])
                else []))) \<and>
    (update_ok oe \<longrightarrow>
      filter is_update (snd (run env prior
          [(StartRecording sid, oa), (KeyDown ControlLeft_event, ob), (KeyDown KeyA_event, oc),
           (KeyUp ControlLeft_event, od), (KeyUp KeyA_event, oe)]))
        = [UpdateBinding sid ''ctrl+a''] \<and>
      filter is_update (snd (run env prior
          [(StartRecording sid, oa), (KeyDown ControlLeft_event, ob), (KeyDown KeyA_event, oc),
           (KeyUp KeyA_event, od), (KeyUp ControlLeft_event, oe)]))
        = [UpdateBinding sid ''ctrl+a''])"
proof -
  note two = run_two_downs [OF assms(2) assms(3), of oa ob oc]
  have a: "run env prior [(StartRecording sid, oa), (KeyDown ControlLeft_event, ob), (KeyDown KeyA_event, oc)]
      = (\<lparr>keyPressed = [''ctrl'', ''a''], recordedKeys = [''ctrl'', ''a''],
          editingShortcutId = Some sid, originalBinding = current_binding b\<rparr>, [SuspendBinding sid])"
    using two [of "[]"] by simp
  have b: "run env prior [(StartRecording sid, oa), (KeyDown ControlLeft_event, ob), (KeyDown KeyA_event, oc),
                 (KeyUp ControlLeft_event, od)]
      = (\<lparr>keyPressed = [''a''], recordedKeys = [''ctrl'', ''a''],
          editingShortcutId = Some sid, originalBinding = current_binding b\<rparr>, [SuspendBinding sid])"
    using two [of "[(KeyUp ControlLeft_event, od)]"] by (simp add: up_ctrl_first)
  have c: "run env prior [(StartRecording sid, oa), (KeyDown ControlLeft_event, ob), (KeyDown KeyA_event, oc),
                 (KeyUp KeyA_event, od)]
      = (\<lparr>keyPressed = [''ctrl''], recordedKeys = [''ctrl'', ''a''],
          editingShortcutId = Some sid, originalBinding = current_binding b\<rparr>, [SuspendBinding sid])"
    using two [of "[(KeyUp KeyA_event, od)]"] by (simp add: up_a_first)
  have d: "run env prior [(StartRecording sid, oa), (KeyDown ControlLeft_event, ob), (KeyDown KeyA_event, oc),
                 (KeyUp ControlLeft_event, od), (KeyUp KeyA_event, oe)]
      = (idle,
         [SuspendBinding sid, UpdateBinding sid ''ctrl+a''] @
         (if update_ok oe then [ResumeBinding sid]
          else ToastError ''settings.general.shortcut.errors.set'' #
               (if truthy (current_binding b) then
                  (if rollback_ok oe then [UpdateBinding sid (current_binding b), ResumeBinding sid]
                   else [UpdateBinding sid (current_binding b),
                         ToastError ''settings.general.shortcut.errors.reset''])
                else [])))"
    using two [of "[(KeyUp ControlLeft_event, od), (KeyUp KeyA_event, oe)]"]
    by (simp add: up_ctrl_first up_a_last [OF assms(1) assms(2)])
  have e: "run env prior [(StartRecording sid, oa), (KeyDown ControlLeft_event, ob), (KeyDown KeyA_event, oc),
                 (KeyUp KeyA_event, od), (KeyUp ControlLeft_event, oe)]
      = (idle,
         [SuspendBinding sid, UpdateBinding sid ''ctrl+a''] @
         (if update_ok oe then [ResumeBinding sid]
          else ToastError ''settings.general.shortcut.errors.set'' #
               (if truthy (current_binding b) then
                  (if rollback_ok oe then [UpdateBinding sid (current_binding b), ResumeBinding sid]
                   else [UpdateBinding sid (current_binding b),
                         ToastError ''settings.general.shortcut.errors.reset''])
                else [])))"
    using two [of "[(KeyUp KeyA_event, od), (KeyUp ControlLeft_event, oe)]"]
    by (simp add: up_a_first up_ctrl_last [OF assms(1) assms(2)])
  have f: "update_ok oe \<longrightarrow>
      filter is_update (snd (run env prior
          [(StartRecording sid, oa), (KeyDown ControlLeft_event, ob), (KeyDown KeyA_event, oc),
           (KeyUp ControlLeft_event, od), (KeyUp KeyA_event, oe)]))
        = [UpdateBinding sid ''ctrl+a''] \<and>
      filter is_update (snd (run env prior
          [(StartRecording sid, oa), (KeyDown ControlLeft_event, ob), (KeyDown KeyA_event, oc),
           (KeyUp KeyA_event, od), (KeyUp ControlLeft_event, oe)]))
        = [UpdateBinding sid ''ctrl+a'']"
    unfolding d e by simp
  from a b c d e f show ?thesis by (intro conjI)
qed

theorem chord_ctrl_a_lifecycle_witness:
  "run example_env idle [(StartRecording ''transcribe'', accepting), (KeyDown ControlLeft_event, accepting),
                 (KeyDown KeyA_event, accepting), (KeyUp ControlLeft_event, accepting),
                 (KeyUp KeyA_event, accepting)]
      = (idle, [SuspendBinding ''transcribe'', UpdateBinding ''transcribe'' ''ctrl+a'',
                ResumeBinding ''transcribe'']) \<and>
   run example_env idle [(StartRecording ''transcribe'', accepting), (KeyDown ControlLeft_event, accepting),
                 (KeyDown KeyA_event, accepting), (KeyUp ControlLeft_event, accepting),
                 (KeyUp KeyA_event, rejecting)]
      = (idle, [SuspendBinding ''transcribe'', UpdateBinding ''transcribe'' ''ctrl+a'',
                ToastError ''settings.general.shortcut.errors.set'',
                UpdateBinding ''transcribe'' ''ctrl+space'',
                ToastError ''settings.general.shortcut.errors.reset''])"
  using chord_ctrl_a_lifecycle [where sid = "''transcribe''" and env = example_env and prior = idle
      and oe = accepting and oa = accepting and ob = accepting and oc = accepting and od = accepting
      and b = "\<lparr>name = ''Transcribe'', description = ''Start dictation'', current_binding = ''ctrl+space''\<rparr>"]
    chord_ctrl_a_lifecycle [where sid = "''transcribe''" and env = example_env and prior = idle
      and oe = rejecting and oa = accepting and ob = accepting and oc = accepting and od = accepting
      and b = "\<lparr>name = ''Transcribe'', description = ''Start dictation'', current_binding = ''ctrl+space''\<rparr>"]
  by (simp add: truthy_def example_env_def idle_def accepting_def rejecting_def)

text \<open>
  Claim C6. While a session is open, a mouse-down with button index below 3 leaves the recorder
  as it is and issues nothing. A mouse-down with index 3 or more yields the token
  \<^verbatim>\<open>mouse\<close> followed by the index plus one: afterwards the token is held, and it is in the
  recorded sequence whenever every held token was recorded before (which every handler keeps
  true). A token not yet held is appended to the held list, and to the recorded sequence
  unless it is there already; a token already held changes nothing.
\<close>

theorem mouse_down_reserved_buttons:
  assumes "editingShortcutId st \<noteq> None"
  shows "(button e < 3 \<longrightarrow> dispatch env out st (MouseDown e) = (st, [])) \<and>
         (3 \<le> button e \<longrightarrow>
          (let tok = ''mouse'' @ string_of_int (button e + 1);
               st' = fst (dispatch env out st (MouseDown e))
           in tok \<in> set (keyPressed st') \<and>
              (set (keyPressed st) \<subseteq> set (recordedKeys st) \<longrightarrow> tok \<in> set (recordedKeys st')) \<and>
              (tok \<notin> set (keyPressed st) \<longrightarrow>
                 keyPressed st' = keyPressed st @ [tok] \<and>
                 recordedKeys st' = (if tok \<in> set (recordedKeys st) then recordedKeys st
                                     else recordedKeys st @ [tok])) \<and>
              (tok \<in> set (keyPressed st) \<longrightarrow> st' = st)))"
  using assms
  by (auto simp: dispatch_def handleMouseDown_def Let_def getMouseButtonName_extra truthy_def)

theorem mouse_down_reserved_buttons_witness:
  "dispatch example_env accepting
     \<lparr>keyPressed = [''ctrl''], recordedKeys = [''ctrl''], editingShortcutId = Some ''transcribe'',
       originalBinding = ''ctrl+space''\<rparr>
     (MouseDown \<lparr>button = 2\<rparr>)
   = (\<lparr>keyPressed = [''ctrl''], recordedKeys = [''ctrl''], editingShortcutId = Some ''transcribe'',
       originalBinding = ''ctrl+space''\<rparr>, []) \<and>
   ''mouse4'' \<in> set (keyPressed (fst (dispatch example_env accepting
     \<lparr>keyPressed = [''ctrl''], recordedKeys = [''ctrl''], editingShortcutId = Some ''transcribe'',
       originalBinding = ''ctrl+space''\<rparr>
     (MouseDown \<lparr>button = 3\<rparr>)))) \<and>
   ''mouse4'' \<in> set (recordedKeys (fst (dispatch example_env accepting
     \<lparr>keyPressed = [''ctrl''], recordedKeys = [''ctrl''], editingShortcutId = Some ''transcribe'',
       originalBinding = ''ctrl+space''\<rparr>
     (MouseDown \<lparr>button = 3\<rparr>))))"
  using mouse_down_reserved_buttons
    [where st = "\<lparr>keyPressed = [''ctrl''], recordedKeys = [''ctrl''],
                   editingShortcutId = Some ''transcribe'', originalBinding = ''ctrl+space''\<rparr>"
       and e = "\<lparr>button = 2\<rparr>" and env = example_env and out = accepting]
    mouse_down_reserved_buttons
    [where st = "\<lparr>keyPressed = [''ctrl''], recordedKeys = [''ctrl''],
                   editingShortcutId = Some ''transcribe'', originalBinding = ''ctrl+space''\<rparr>"
       and e = "\<lparr>button = 3\<rparr>" and env = example_env and out = accepting]
  by (simp add: Let_def string_of_int_def digit_char_def)

text \<open>Every held token is a recorded one: true at the start of a session and kept by every
  event.\<close>

lemma held_subset_recorded:
  "set (keyPressed st) \<subseteq> set (recordedKeys st) \<Longrightarrow>
   set (keyPressed (fst (dispatch env out st ev))) \<subseteq> set (recordedKeys (fst (dispatch env out st ev)))"
  by (cases ev)
     (auto simp: dispatch_def startRecording_def handleKeyDown_def handleKeyUp_def handleMouseDown_def
        handleMouseUp_def handleContextMenu_def handleClickOutside_def idle_def Let_def
        split: option.splits if_splits)

text \<open>
  Claim C10. A session edits \<open>sid\<close>, the cached bindings have no entry for \<open>sid\<close>, and
  something is recorded. When a key-up, or the release of an extra mouse button, leaves nothing
  held, the handler issues no \<^verbatim>\<open>updateBinding\<close>, no \<^verbatim>\<open>resumeBinding\<close> and nothing else, and
  the only change to the recorder is the held list, now empty: the edited id, the recorded
  sequence and the snapshot stay, and the session remains open.
\<close>

theorem commit_gated_on_cached_binding:
  assumes "editingShortcutId st = Some sid" and "bindings env sid = None"
    and "recordedKeys st \<noteq> []"
  shows "(filter (\<lambda>x. x \<noteq> normalizeKey (getKeyName e (osType env))) (keyPressed st) = [] \<longrightarrow>
           dispatch env out st (KeyUp e) = (st\<lparr>keyPressed := []\<rparr>, [])) \<and>
         (3 \<le> button m \<and>
          filter (\<lambda>x. x \<noteq> ''mouse'' @ string_of_int (button m + 1)) (keyPressed st) = [] \<longrightarrow>
           dispatch env out st (MouseUp m) = (st\<lparr>keyPressed := []\<rparr>, []))"
  using assms
  by (auto simp: dispatch_def handleKeyUp_def handleMouseUp_def Let_def getMouseButtonName_extra truthy_def)

theorem commit_gated_on_cached_binding_witness:
  "dispatch \<lparr>bindings = Map.empty, osType = Linux\<rparr> accepting
     \<lparr>keyPressed = [''a''], recordedKeys = [''ctrl'', ''a''], editingShortcutId = Some ''transcribe'',
       originalBinding = []\<rparr>
     (KeyUp KeyA_event)
   = (\<lparr>keyPressed = [], recordedKeys = [''ctrl'', ''a''], editingShortcutId = Some ''transcribe'',
       originalBinding = []\<rparr>, []) \<and>
   dispatch \<lparr>bindings = Map.empty, osType = Linux\<rparr> accepting
     \<lparr>keyPressed = [''mouse4''], recordedKeys = [''ctrl'', ''mouse4''],
       editingShortcutId = Some ''transcribe'', originalBinding = []\<rparr>
     (MouseUp \<lparr>button = 3\<rparr>)
   = (\<lparr>keyPressed = [], recordedKeys = [''ctrl'', ''mouse4''], editingShortcutId = Some ''transcribe'',
       originalBinding = []\<rparr>, [])"
  using commit_gated_on_cached_binding
    [where st = "\<lparr>keyPressed = [''a''], recordedKeys = [''ctrl'', ''a''],
                   editingShortcutId = Some ''transcribe'', originalBinding = []\<rparr>"
       and sid = "''transcribe''" and env = "\<lparr>bindings = Map.empty, osType = Linux\<rparr>" and e = KeyA_event
       and m = "\<lparr>button = 0\<rparr>" and out = accepting]
    commit_gated_on_cached_binding
    [where st = "\<lparr>keyPressed = [''mouse4''], recordedKeys = [''ctrl'', ''mouse4''],
                   editingShortcutId = Some ''transcribe'', originalBinding = []\<rparr>"
       and sid = "''transcribe''" and env = "\<lparr>bindings = Map.empty, osType = Linux\<rparr>" and e = KeyA_event
       and m = "\<lparr>button = 3\<rparr>" and out = accepting]
  by (simp add: token_KeyA string_of_int_def digit_char_def)

section \<open>Facts about the subscriptions\<close>

text \<open>The cleanup closure that \<^verbatim>\<open>setupEventListeners\<close> builds would remove all three
  subscriptions, and the effect of \<^verbatim>\<open>TranslateToEnglish\<close> hands its cleanup to React.\<close>

lemma setupEventListeners_cleanup_would_clear:
  "snd (setupEventListeners []) (fst (setupEventListeners [])) = []"
  by (simp add: setupEventListeners_def listen_def)

lemma TranslateToEnglish_unsubscribes:
  "''model-state-changed'' \<notin> set subs \<Longrightarrow> unmount (TranslateToEnglish_effect subs) = subs"
  by (simp add: unmount_def TranslateToEnglish_effect_def listen_def remove1_append)

text \<open>
  Claim C4. The claim says that no subscription registered on mount is live after the owning
  component has unmounted. On the code, \<^verbatim>\<open>RecordingOverlay\<close> mounted with no subscription
  live and then unmounted leaves \<^verbatim>\<open>show-overlay\<close>, \<^verbatim>\<open>hide-overlay\<close> and \<^verbatim>\<open>mic-level\<close>
  subscribed: its effect gives React no cleanup, so the closure built by
  \<^verbatim>\<open>setupEventListeners\<close> is never called.
\<close>

theorem RecordingOverlay_subscriptions_survive_unmount:
  "unmount (RecordingOverlay_effect []) = [''show-overlay'', ''hide-overlay'', ''mic-level'']"
  by (simp add: unmount_def RecordingOverlay_effect_def setupEventListeners_def listen_def)

section \<open>Facts about the level smoothing\<close>

lemma length_smooth_levels: "length (smooth_levels s p) = length s"
  by (simp add: smooth_levels_def)

lemma nth_smooth_levels:
  "i < length s \<Longrightarrow> smooth_levels s p ! i = s ! i * 0.7 + target_at p i * 0.3"
  by (simp add: smooth_levels_def)

lemma feed_constant_closed_form:
  "i < length s \<Longrightarrow>
   feed s (replicate n v) ! i = target_at v i + (s ! i - target_at v i) * 0.7 ^ n"
proof (induction n arbitrary: s)
  case 0
  then show ?case by simp
next
  case (Suc n)
  have "feed s (replicate (Suc n) v) ! i = feed (smooth_levels s v) (replicate n v) ! i"
    by simp
  also have "\<dots> = target_at v i + (smooth_levels s v ! i - target_at v i) * 0.7 ^ n"
    using Suc.prems by (intro Suc.IH) (simp add: length_smooth_levels)
  also have "\<dots> = target_at v i + (s ! i - target_at v i) * 0.7 ^ Suc n"
    using Suc.prems by (simp add: nth_smooth_levels field_simps)
  finally show ?case .
qed

lemma feed_from_zero:
  "i < 16 \<Longrightarrow> feed initial_levels (replicate n v) ! i = target_at v i * (1 - 0.7 ^ n)"
  using feed_constant_closed_form [of i initial_levels n v]
  by (simp add: initial_levels_def algebra_simps)

text \<open>
  Claim C9. For each of the sixteen channels \<open>i\<close>, with the levels starting at zero and the same
  payload \<open>v\<close>, non-negative at \<open>i\<close>, received \<open>n\<close> times: the stored level does not decrease with
  one more payload, never exceeds the input, and is the input times \<open>1 - 0.7 ^ n\<close>. After one
  payload \<open>v\<close> followed by all-zero payloads, each step multiplies the level by \<open>0.7\<close>: after \<open>k\<close>
  zero payloads it is \<open>0.3\<close> times the input times \<open>0.7 ^ k\<close>.
\<close>

theorem smoothing_monotone_bounded_decay:
  assumes "i < 16" and "0 \<le> target_at v i"
  shows "feed initial_levels (replicate n v) ! i \<le> feed initial_levels (replicate (Suc n) v) ! i \<and>
         feed initial_levels (replicate n v) ! i \<le> target_at v i \<and>
         feed initial_levels (replicate n v) ! i = target_at v i * (1 - 0.7 ^ n) \<and>
         feed initial_levels (v # replicate (Suc k) (replicate 16 0)) ! i
           = 0.7 * feed initial_levels (v # replicate k (replicate 16 0)) ! i \<and>
         feed initial_levels (v # replicate k (replicate 16 0)) ! i = 0.3 * target_at v i * 0.7 ^ k"
proof -
  let ?x = "target_at v i"
  have pow: "(0.7::real) ^ Suc n \<le> 0.7 ^ n" by simp
  have pos: "(0::real) \<le> 0.7 ^ n" by simp
  have mono: "?x * (1 - 0.7 ^ n) \<le> ?x * (1 - 0.7 ^ Suc n)"
    using assms(2) pow by (intro mult_left_mono) simp_all
  have bound: "?x * (1 - 0.7 ^ n) \<le> ?x"
    using assms(2) pos by (simp add: mult_left_le)
  have z: "target_at (replicate 16 0) i = 0"
    using assms(1) by (simp add: target_at_def)
  have li: "i < length (smooth_levels initial_levels v)"
    using assms(1) by (simp add: length_smooth_levels initial_levels_def)
  have first: "smooth_levels initial_levels v ! i = 0.3 * ?x"
    using assms(1) by (simp add: nth_smooth_levels initial_levels_def)
  have imp: "feed initial_levels (v # replicate m (replicate 16 0)) ! i = 0.3 * ?x * 0.7 ^ m" for m
  proof -
    have "feed initial_levels (v # replicate m (replicate 16 0)) ! i
            = feed (smooth_levels initial_levels v) (replicate m (replicate 16 0)) ! i"
      by simp
    also have "\<dots> = 0.3 * ?x * 0.7 ^ m"
      using feed_constant_closed_form [OF li, of m "replicate 16 0"] by (simp add: z first)
    finally show ?thesis .
  qed
  have c1: "feed initial_levels (replicate n v) ! i = ?x * (1 - 0.7 ^ n)"
    by (rule feed_from_zero [OF assms(1)])
  have c2: "feed initial_levels (replicate (Suc n) v) ! i = ?x * (1 - 0.7 ^ Suc n)"
    by (rule feed_from_zero [OF assms(1)])
  have p1: "feed initial_levels (replicate n v) ! i \<le> feed initial_levels (replicate (Suc n) v) ! i"
    unfolding c1 c2 by (rule mono)
  have p2: "feed initial_levels (replicate n v) ! i \<le> ?x"
    unfolding c1 by (rule bound)
  have p4: "feed initial_levels (v # replicate (Suc k) (replicate 16 0)) ! i
           = 0.7 * feed initial_levels (v # replicate k (replicate 16 0)) ! i"
    unfolding imp by simp
  from p1 p2 c1 p4 imp [of k] show ?thesis by (intro conjI)
qed

theorem smoothing_monotone_bounded_decay_witness:
  "feed initial_levels (replicate 2 [1, 0.5]) ! 1 \<le> feed initial_levels (replicate 3 [1, 0.5]) ! 1 \<and>
   feed initial_levels (replicate 2 [1, 0.5]) ! 1 \<le> 0.5 \<and>
   feed initial_levels ([1, 0.5] # replicate 2 (replicate 16 0)) ! 1 = 0.3 * 0.5 * 0.7 ^ 2"
  using smoothing_monotone_bounded_decay [where i = 1 and v = "[1, 0.5]" and n = 2 and k = 2]
  by (simp add: target_at_def eval_nat_numeral)

section \<open>Facts about the display format\<close>

subsection \<open>Characters\<close>

lemma upper_char_of_lower: "is_lower c \<Longrightarrow> is_upper (upper_char c) \<and> lower_char (upper_char c) = c"
  apply (simp add: is_lower_def lower_letters_def)
  apply (elim disjE)
  apply (simp_all add: char_defs)
  done

lemma upper_char_other: "\<not> is_lower c \<Longrightarrow> upper_char c = c"
  by (simp add: char_defs)

lemma is_upper_plain:
  "is_upper u \<Longrightarrow> u \<noteq> CHR '' '' \<and> u \<noteq> CHR ''+'' \<and> \<not> is_space u \<and> \<not> is_lower u"
  apply (simp add: is_upper_def upper_letters_def)
  apply (elim disjE)
  apply (simp_all add: is_space_def is_lower_def lower_letters_def)
  done

lemma is_lower_plain:
  "is_lower u \<Longrightarrow> u \<noteq> CHR '' '' \<and> u \<noteq> CHR ''+'' \<and> \<not> is_space u \<and> lower_char u = u"
  apply (simp add: is_lower_def lower_letters_def)
  apply (elim disjE)
  apply (simp_all add: is_space_def lower_char_def upper_letters_def lower_letters_def)
  done

lemma upper_char_space: "upper_char c = CHR '' '' \<longleftrightarrow> c = CHR '' ''"
  using upper_char_of_lower [of c] upper_char_other [of c] is_upper_plain [of "upper_char c"]
    is_lower_plain [of c]
  by (cases "is_lower c") auto

lemma upper_char_plus: "upper_char c = CHR ''+'' \<longleftrightarrow> c = CHR ''+''"
  using upper_char_of_lower [of c] upper_char_other [of c] is_upper_plain [of "upper_char c"]
    is_lower_plain [of c]
  by (cases "is_lower c") auto

lemma is_space_upper_char: "is_space (upper_char c) = is_space c"
  using upper_char_of_lower [of c] upper_char_other [of c] is_upper_plain [of "upper_char c"]
    is_lower_plain [of c]
  by (cases "is_lower c") auto

lemma lower_upper_char: "lower_char (upper_char c) = lower_char c"
  using upper_char_of_lower [of c] upper_char_other [of c] is_lower_plain [of c]
  by (cases "is_lower c") auto

lemma upper_upper_char: "upper_char (upper_char c) = upper_char c"
  using upper_char_of_lower [of c] upper_char_other [of c] upper_char_other [of "upper_char c"]
    is_upper_plain [of "upper_char c"]
  by (cases "is_lower c") auto

lemma digit_facts:
  "is_digit c \<Longrightarrow> lower_char c = c \<and> \<not> is_space c \<and> c \<noteq> CHR ''+''"
  apply (simp add: is_digit_def)
  apply (elim disjE)
  apply (simp_all add: is_space_def lower_char_def upper_letters_def lower_letters_def)
  done

subsection \<open>Splitting, joining and trimming\<close>

lemma split_on_nonempty: "split_on c s \<noteq> []"
  by (induction s) (auto split: list.splits)

lemma split_on_parts_free: "p \<in> set (split_on c s) \<Longrightarrow> c \<notin> set p"
  by (induction s arbitrary: p) (auto split: list.splits if_splits)

lemma split_on_free: "c \<notin> set s \<Longrightarrow> split_on c s = [s]"
  by (induction s) auto

lemma split_on_append: "c \<notin> set a \<Longrightarrow> split_on c (a @ c # r) = a # split_on c r"
  by (induction a) auto

lemma join_Cons_Cons: "join sep ((x # p) # ps) = x # join sep (p # ps)"
  by (cases ps) simp_all

lemma join_Nil_Cons: "join sep ([] # q # ps) = sep @ join sep (q # ps)"
  by simp

lemma trim_pad:
  assumes "\<forall>x \<in> set pre. is_space x" and "\<forall>x \<in> set suf. is_space x"
  shows "trim (pre @ p @ suf) = trim p"
proof (cases "\<forall>x \<in> set p. is_space x")
  case True
  have "\<forall>x \<in> set (pre @ p @ suf). is_space x" using assms True by auto
  then have a: "dropWhile is_space (pre @ p @ suf) = []" by (simp only: dropWhile_eq_Nil_conv)
  have b: "dropWhile is_space p = []" using True by (simp only: dropWhile_eq_Nil_conv)
  show ?thesis by (simp only: trim_def a b)
next
  case False
  then obtain x where x: "x \<in> set p" "\<not> is_space x" by blast
  have 1: "dropWhile is_space (pre @ p @ suf) = dropWhile is_space p @ suf"
    using assms(1) x by (simp add: dropWhile_append1)
  have "dropWhile is_space (rev suf @ rev (dropWhile is_space p))
          = dropWhile is_space (rev (dropWhile is_space p))"
    by (rule dropWhile_append2) (use assms(2) in auto)
  then show ?thesis by (simp add: trim_def 1)
qed

lemma set_trim: "set (trim s) \<subseteq> set s"
  unfolding trim_def by (auto dest!: set_dropWhileD)

lemma trimmed_trim: "trimmed (trim s)"
proof (cases "trim s = []")
  case True then show ?thesis by (simp add: trimmed_def)
next
  case False
  let ?d = "dropWhile is_space s"
  let ?r = "dropWhile is_space (rev ?d)"
  from False have r: "?r \<noteq> []" by (simp add: trim_def)
  have d: "?d \<noteq> []"
  proof
    assume "?d = []"
    then have "?r = []" by (simp only: rev.simps dropWhile.simps)
    with r show False by simp
  qed
  have hr: "\<not> is_space (hd ?r)" using r by (rule hd_dropWhile)
  have hd_d: "\<not> is_space (hd ?d)" using d by (rule hd_dropWhile)
  have last_t: "last (trim s) = hd ?r" using r by (simp add: trim_def last_rev)
  have "\<exists>pre. rev ?d = pre @ ?r" by (metis takeWhile_dropWhile_id)
  then obtain pre where pre: "rev ?d = pre @ ?r" ..
  then have "?d = rev ?r @ rev pre" by (metis rev_append rev_rev_ident)
  then have "hd ?d = hd (rev ?r)" using r by (metis hd_append2 rev_is_Nil_conv)
  then have "\<not> is_space (hd (trim s))" using hd_d by (simp add: trim_def)
  then show ?thesis using hr last_t by (simp add: trimmed_def)
qed

lemma trim_trimmed: "trimmed s \<Longrightarrow> trim s = s"
proof (cases "s = []")
  case True then show ?thesis by (simp add: trim_def)
next
  case False
  assume "trimmed s"
  with False have h: "\<not> is_space (hd s)" and l: "\<not> is_space (last s)" by (simp_all add: trimmed_def)
  have 1: "dropWhile is_space s = s" using h False by (cases s) simp_all
  have "hd (rev s) = last s" using False by (simp add: hd_rev)
  then have 2: "dropWhile is_space (rev s) = rev s" using l False by (simp add: dropWhile_eq_self_iff)
  show ?thesis by (simp add: trim_def 1 2)
qed

subsection \<open>Capitalised words\<close>

lemma join_words_title_case:
  "split_on CHR '' '' s = p # ps \<Longrightarrow>
   join '' '' ((if b then capitalize p else p) # map capitalize ps) = title_case b s"
proof (induction s arbitrary: b p ps)
  case Nil
  then show ?case by simp
next
  case (Cons c cs)
  obtain q qs where q: "split_on CHR '' '' cs = q # qs"
    using split_on_nonempty [of "CHR '' ''" cs] by (cases "split_on CHR '' '' cs") auto
  show ?case
  proof (cases "c = CHR '' ''")
    case True
    with Cons.prems q have "p = []" "ps = q # qs" by simp_all
    moreover have "join '' '' (capitalize q # map capitalize qs) = title_case True cs"
      using Cons.IH [OF q, of True] by simp
    ultimately show ?thesis using True by simp
  next
    case False
    with Cons.prems q have "p = c # q" "ps = qs" by simp_all
    moreover have "join '' '' (q # map capitalize qs) = title_case False cs"
      using Cons.IH [OF q, of False] by simp
    ultimately show ?thesis using False by (simp add: join_Cons_Cons)
  qed
qed

lemma title_case_words: "join '' '' (map capitalize (split_on CHR '' '' s)) = title_case True s"
proof -
  obtain p ps where "split_on CHR '' '' s = p # ps"
    using split_on_nonempty [of "CHR '' ''" s] by (cases "split_on CHR '' '' s") auto
  then show ?thesis using join_words_title_case [of s p ps True] by simp
qed

lemma toLowerCase_title_case: "toLowerCase (title_case b s) = toLowerCase s"
  by (induction s arbitrary: b) (simp_all add: toLowerCase_def lower_upper_char)

lemma title_case_twice: "title_case b (title_case b' s) = title_case (b \<or> b') s"
  by (induction s arbitrary: b b') (auto simp: upper_char_space upper_upper_char)

lemma plus_upper_char: "CHR ''+'' = upper_char c \<longleftrightarrow> c = CHR ''+''"
  using upper_char_plus [of c] by auto

lemma plus_free_title_case: "CHR ''+'' \<notin> set s \<Longrightarrow> CHR ''+'' \<notin> set (title_case b s)"
  by (induction s arbitrary: b) (auto simp: plus_upper_char)

lemma title_case_Nil_iff: "title_case b s = [] \<longleftrightarrow> s = []"
  by (cases s) simp_all

lemma is_space_hd_title_case: "s \<noteq> [] \<Longrightarrow> is_space (hd (title_case b s)) = is_space (hd s)"
  by (cases s) (simp_all add: is_space_upper_char)

lemma is_space_last_title_case: "s \<noteq> [] \<Longrightarrow> is_space (last (title_case b s)) = is_space (last s)"
  by (induction s arbitrary: b) (auto simp: is_space_upper_char title_case_Nil_iff)

lemma trimmed_title_case: "trimmed s \<Longrightarrow> trimmed (title_case b s)"
  by (cases "s = []")
     (simp_all add: trimmed_def title_case_Nil_iff is_space_hd_title_case is_space_last_title_case)

lemma isMouseButton_lower: "toLowerCase a = toLowerCase b \<Longrightarrow> isMouseButton a = isMouseButton b"
  by (simp add: isMouseButton_def)

lemma formatInputDisplay_keyboard:
  "\<not> isMouseButton t \<Longrightarrow> formatInputDisplay t = title_case True t"
  by (simp add: formatInputDisplay_def title_case_words)

lemma keyboard_stable:
  assumes "\<not> isMouseButton t"
  shows "formatInputDisplay (formatInputDisplay t) = formatInputDisplay t"
proof -
  have "\<not> isMouseButton (title_case True t)"
    using assms isMouseButton_lower [OF toLowerCase_title_case [of True t]] by simp
  then show ?thesis
    using assms by (simp add: formatInputDisplay_keyboard title_case_twice)
qed

subsection \<open>One token\<close>

lemmas fmt_defs = formatInputDisplay_def isMouseButton_def getMouseButtonDisplayName_def
  displayNames_def lookup_truthy_def match_mouse_digits_def toLowerCase_def startsWith_def truthy_def
  lower_char_def upper_char_def is_upper_def is_lower_def is_digit_def upper_letters_def lower_letters_def

lemma displayNames_values: "lookup_truthy displayNames k = Some v \<Longrightarrow> v \<in> set fixed_names"
  by (simp add: lookup_truthy_def displayNames_def fixed_names_def truthy_def split: if_splits)

lemma fixed_names_stable:
  "v \<in> set fixed_names \<Longrightarrow>
   formatInputDisplay v = v \<and> trimmed v \<and> CHR ''+'' \<notin> set v"
  apply (simp add: fixed_names_def)
  apply (elim disjE)
  apply (simp_all add: fmt_defs trimmed_def is_space_def)
  done

lemma toLowerCase_digits: "list_all is_digit ds \<Longrightarrow> toLowerCase ds = ds"
  by (induction ds) (simp_all add: toLowerCase_def digit_facts)

lemma mouse_number_stable:
  assumes "ds \<noteq> []" and "list_all is_digit ds"
  shows "formatInputDisplay (''Mouse '' @ ds) = ''Mouse '' @ ds \<and> trimmed (''Mouse '' @ ds) \<and>
         CHR ''+'' \<notin> set (''Mouse '' @ ds)"
proof -
  have low: "toLowerCase (''Mouse '' @ ds) = ''mouse '' @ ds"
    using toLowerCase_digits [OF assms(2)]
    by (simp add: toLowerCase_def lower_char_def upper_letters_def lower_letters_def)
  have m: "isMouseButton (''Mouse '' @ ds)"
    unfolding isMouseButton_def low by (simp add: startsWith_def)
  have t: "lookup_truthy displayNames (''mouse '' @ ds) = None"
    by (simp add: lookup_truthy_def displayNames_def)
  have r: "match_mouse_digits (''mouse '' @ ds) = None"
    by (simp add: match_mouse_digits_def is_digit_def)
  have f: "formatInputDisplay (''Mouse '' @ ds) = ''Mouse '' @ ds"
    using m by (simp only: formatInputDisplay_def getMouseButtonDisplayName_def low Let_def t r)
       simp
  have "\<not> is_space (last ds)"
    using assms by (metis digit_facts last_in_set list_all_iff)
  then have tr: "trimmed (''Mouse '' @ ds)"
    using assms(1) by (simp add: trimmed_def is_space_def)
  have "CHR ''+'' \<notin> set ds"
    using assms(2) digit_facts by (auto simp: list_all_iff)
  then show ?thesis using f tr by simp
qed

lemma mouse_stable:
  assumes "isMouseButton t" and "trimmed t" and "CHR ''+'' \<notin> set t"
  shows "formatInputDisplay (formatInputDisplay t) = formatInputDisplay t \<and>
         trimmed (formatInputDisplay t) \<and> CHR ''+'' \<notin> set (formatInputDisplay t)"
proof (cases "lookup_truthy displayNames (toLowerCase t)")
  case (Some v)
  then have "formatInputDisplay t = v"
    using assms(1) by (simp add: formatInputDisplay_def getMouseButtonDisplayName_def)
  then show ?thesis using fixed_names_stable [OF displayNames_values [OF Some]] by simp
next
  case None
  show ?thesis
  proof (cases "match_mouse_digits (toLowerCase t)")
    case (Some ds)
    then have ds: "ds \<noteq> []" "list_all is_digit ds"
      by (auto simp: match_mouse_digits_def split: if_splits)
    have "formatInputDisplay t = ''Mouse '' @ ds"
      using assms(1) None Some by (simp add: formatInputDisplay_def getMouseButtonDisplayName_def)
    then show ?thesis using mouse_number_stable [OF ds] by simp
  next
    case none: None
    have "formatInputDisplay t = t"
      using assms(1) None none by (simp add: formatInputDisplay_def getMouseButtonDisplayName_def)
    then show ?thesis using assms by simp
  qed
qed

lemma token_stable:
  assumes "trimmed t" and "CHR ''+'' \<notin> set t"
  shows "formatInputDisplay (formatInputDisplay t) = formatInputDisplay t \<and>
         trimmed (formatInputDisplay t) \<and> CHR ''+'' \<notin> set (formatInputDisplay t)"
proof (cases "isMouseButton t")
  case True
  then show ?thesis using assms by (rule mouse_stable)
next
  case False
  then show ?thesis
    using assms keyboard_stable [OF False]
    by (simp add: formatInputDisplay_keyboard trimmed_title_case plus_free_title_case)
qed

subsection \<open>A whole chord\<close>

lemma is_space_blank: "is_space CHR '' ''"
  by (simp add: is_space_def)

lemma is_space_not_plus: "is_space x \<Longrightarrow> x \<noteq> CHR ''+''"
  by (auto simp: is_space_def)

lemma trim_parts_of_joined:
  assumes "\<forall>q \<in> set (p # ps). CHR ''+'' \<notin> set q" and "\<forall>x \<in> set pre. is_space x"
  shows "map trim (split_on CHR ''+'' (pre @ join '' + '' (p # ps))) = map trim (p # ps)"
  using assms
proof (induction ps arbitrary: p pre)
  case Nil
  have "CHR ''+'' \<notin> set pre" using Nil.prems(2) is_space_not_plus by blast
  moreover have "CHR ''+'' \<notin> set p" using Nil.prems(1) by simp
  ultimately have "CHR ''+'' \<notin> set (pre @ p)" by simp
  then have "split_on CHR ''+'' (pre @ p) = [pre @ p]" by (rule split_on_free)
  moreover have "trim (pre @ p) = trim p"
    using trim_pad [of pre "[]" p] Nil.prems(2) by simp
  ultimately show ?case by simp
next
  case (Cons q qs)
  have "CHR ''+'' \<notin> set pre" using Cons.prems(2) is_space_not_plus by blast
  moreover have "CHR ''+'' \<notin> set p" using Cons.prems(1) by simp
  ultimately have free: "CHR ''+'' \<notin> set (pre @ p @ '' '')" by simp
  have "pre @ join '' + '' (p # q # qs) = (pre @ p @ '' '') @ CHR ''+'' # ('' '' @ join '' + '' (q # qs))"
    by simp
  then have s: "split_on CHR ''+'' (pre @ join '' + '' (p # q # qs))
               = (pre @ p @ '' '') # split_on CHR ''+'' ('' '' @ join '' + '' (q # qs))"
    by (simp only: split_on_append [OF free])
  have t: "trim (pre @ p @ '' '') = trim p"
    using trim_pad [of pre "'' ''" p] Cons.prems(2) by (simp add: is_space_blank)
  have "\<forall>r \<in> set (q # qs). CHR ''+'' \<notin> set r" using Cons.prems(1) by simp
  moreover have "\<forall>x \<in> set '' ''. is_space x" by (simp add: is_space_blank)
  ultimately have ih: "map trim (split_on CHR ''+'' ('' '' @ join '' + '' (q # qs))) = map trim (q # qs)"
    by (rule Cons.IH)
  show ?case by (simp only: s list.map t ih)
qed

lemma part_stable:
  assumes "CHR ''+'' \<notin> set part"
  shows "formatInputDisplay (trim (formatInputDisplay (trim part))) = formatInputDisplay (trim part)
         \<and> CHR ''+'' \<notin> set (formatInputDisplay (trim part))"
proof -
  have "CHR ''+'' \<notin> set (trim part)" using assms set_trim [of part] by auto
  from token_stable [OF trimmed_trim this] show ?thesis by (simp add: trim_trimmed)
qed

lemma format_examples:
  "formatInputDisplay ''mouse4'' = ''Mouse 4'' \<and> formatInputDisplay ''ctrl'' = ''Ctrl''"
  by (simp add: fmt_defs)

text \<open>
  Claim C8, amended. \<^verbatim>\<open>formatInputDisplay("mouse4")\<close> is \<^verbatim>\<open>Mouse 4\<close> and
  \<^verbatim>\<open>formatInputDisplay("ctrl")\<close> is \<^verbatim>\<open>Ctrl\<close>. For every chord string, the transformation
  that the component applies when it renders a stored binding (split at \<^verbatim>\<open>+\<close>, trim each part,
  format each part for display, join with \<^verbatim>\<open>" + "\<close>) gives the same string when it is
  applied to its own output.
\<close>

theorem display_binding_idempotent:
  "formatInputDisplay ''mouse4'' = ''Mouse 4'' \<and> formatInputDisplay ''ctrl'' = ''Ctrl'' \<and>
   display_binding (display_binding s) = display_binding s"
proof -
  let ?f = "\<lambda>part. formatInputDisplay (trim part)"
  obtain p ps where sp: "split_on CHR ''+'' s = p # ps"
    using split_on_nonempty [of "CHR ''+''" s] by (cases "split_on CHR ''+'' s") auto
  define shown where "shown = map ?f (p # ps)"
  have shown_Cons: "shown = ?f p # map ?f ps"
    by (simp only: shown_def list.map)
  have free: "\<forall>q \<in> set (p # ps). CHR ''+'' \<notin> set q"
    using split_on_parts_free [of _ "CHR ''+''" s] unfolding sp by blast
  have free': "\<forall>q \<in> set (?f p # map ?f ps). CHR ''+'' \<notin> set q"
  proof
    fix q assume "q \<in> set (?f p # map ?f ps)"
    then have "q \<in> set shown" by (simp only: shown_Cons)
    then obtain r where "r \<in> set (p # ps)" "q = ?f r" unfolding shown_def by auto
    then show "CHR ''+'' \<notin> set q" using free part_stable by blast
  qed
  have e1: "map trim (split_on CHR ''+'' (join '' + '' shown)) = map trim shown"
    using trim_parts_of_joined [OF free', of "[]"] unfolding shown_Cons by simp
  have e2: "map ?f (split_on CHR ''+'' (join '' + '' shown))
              = map formatInputDisplay (map trim (split_on CHR ''+'' (join '' + '' shown)))"
    by (simp only: map_map o_def)
  have e3: "map formatInputDisplay (map trim shown) = map (\<lambda>r. formatInputDisplay (trim (?f r))) (p # ps)"
    unfolding shown_def by (simp only: map_map o_def)
  have e4: "map (\<lambda>r. formatInputDisplay (trim (?f r))) (p # ps) = map ?f (p # ps)"
  proof (rule map_cong [OF refl])
    fix r assume "r \<in> set (p # ps)"
    then have "CHR ''+'' \<notin> set r" using free by blast
    then show "formatInputDisplay (trim (?f r)) = ?f r" using part_stable by blast
  qed
  have "map ?f (split_on CHR ''+'' (join '' + '' shown))
          = map formatInputDisplay (map trim (split_on CHR ''+'' (join '' + '' shown)))"
    by (rule e2)
  also have "\<dots> = map formatInputDisplay (map trim shown)"
    by (simp only: e1)
  also have "\<dots> = map (\<lambda>r. formatInputDisplay (trim (?f r))) (p # ps)"
    by (rule e3)
  also have "\<dots> = map ?f (p # ps)"
    by (rule e4)
  also have "\<dots> = shown"
    by (simp only: shown_def)
  finally have round: "map ?f (split_on CHR ''+'' (join '' + '' shown)) = shown" .
  have once: "display_binding s = join '' + '' shown"
    unfolding display_binding_def sp shown_def ..
  have "display_binding (join '' + '' shown) = join '' + '' shown"
    unfolding display_binding_def [of "join '' + '' shown"] round ..
  then have "display_binding (display_binding s) = display_binding s"
    by (simp only: once)
  then show ?thesis using format_examples by blast
qed

text \<open>
  Claim C8, as stated: splitting at \<^verbatim>\<open>+\<close>, formatting each token and joining with
  \<^verbatim>\<open>" + "\<close> would be idempotent. Without the trimming of the parts it is not: the chord
  \<^verbatim>\<open>ctrl+a\<close> becomes \<^verbatim>\<open>Ctrl + A\<close>, whose parts keep the blanks around the separator, and
  a second pass doubles them.
\<close>

theorem untrimmed_round_trip_differs:
  "join '' + '' (map formatInputDisplay (split_on CHR ''+'' ''ctrl+a'')) = ''Ctrl + A'' \<and>
   join '' + '' (map formatInputDisplay (split_on CHR ''+'' ''Ctrl + A'')) = ''Ctrl  +  A'' \<and>
   join '' + '' (map formatInputDisplay (split_on CHR ''+''
       (join '' + '' (map formatInputDisplay (split_on CHR ''+'' ''ctrl+a'')))))
     \<noteq> join '' + '' (map formatInputDisplay (split_on CHR ''+'' ''ctrl+a''))"
proof -
  have a: "join '' + '' (map formatInputDisplay (split_on CHR ''+'' ''ctrl+a'')) = ''Ctrl + A''"
    by (simp add: fmt_defs)
  have b: "join '' + '' (map formatInputDisplay (split_on CHR ''+'' ''Ctrl + A'')) = ''Ctrl  +  A''"
    by (simp add: fmt_defs)
  show ?thesis unfolding a b by simp
qed

lemma display_binding_example: "display_binding ''ctrl+shift+mouse4'' = ''Ctrl + Shift + Mouse 4''"
  by (simp add: display_binding_def trim_def is_space_def fmt_defs)

end
